theory Spec2Isabelle
  imports Main "HOL-Library.Multiset"
begin

section \<open>Data model\<close>

text \<open>
  Instants are JavaScript \<^verbatim>\<open>Date\<close> values, read through \<^verbatim>\<open>getTime()\<close>: integer
  milliseconds since the epoch. Integer columns (\<^verbatim>\<open>type: 'int'\<close>) and GraphQL \<^verbatim>\<open>Int\<close>
  arguments are integers; fractions, NaN and the infinities never reach the modelled
  functions (database integers and JSON numerals only) and are not modelled.
\<close>

type_synonym time = int

text \<open>Entity \<^verbatim>\<open>User\<close> (table \<^verbatim>\<open>users\<close>). The source guards \<^verbatim>\<open>!freshUser.createdAt\<close>, so the
  column read is optional here.\<close>

record user =
  user_id :: string
  user_email :: string
  user_username :: string
  user_createdAt :: "time option"
  user_updatedAt :: time

text \<open>Entity \<^verbatim>\<open>Blog\<close>, with the fields the notification code reads. The relation
  \<^verbatim>\<open>author\<close> is filled when a query joins it.\<close>

record blog =
  blog_id :: string
  blog_title :: string
  blog_content :: string
  blog_createdAt :: time
  blog_updatedAt :: time
  blog_authorId :: string
  blog_author :: "user option"

text \<open>Entity \<^verbatim>\<open>NotificationMarker\<close> (table \<^verbatim>\<open>notification_markers\<close>): primary key
  \<^verbatim>\<open>markerVersion\<close>, column \<^verbatim>\<open>blogId\<close>, relation \<^verbatim>\<open>blog\<close>.\<close>

record marker =
  markerVersion :: int
  blogId :: string
  marker_blog :: "blog option"
  marker_createdAt :: time

text \<open>Entity \<^verbatim>\<open>UserNotificationState\<close>: primary key \<^verbatim>\<open>userId\<close> and the cursor. The
  column \<^verbatim>\<open>updatedAt\<close> is maintained by the database and read by no operation.\<close>

record userState =
  userId :: string
  lastSeenMarkerVersion :: int

text \<open>Interface \<^verbatim>\<open>BlogCreatedEvent\<close>.\<close>

record blogCreatedEvent =
  ev_blogId :: string
  ev_title :: string
  ev_authorId :: string
  ev_createdAt :: time

subsection \<open>JavaScript values\<close>

text \<open>Payloads crossing the publish and subscription boundary are checked dynamically
  (\<^verbatim>\<open>typeof\<close>, truthiness, \<^verbatim>\<open>instanceof Date\<close>), so they are values of a small universe
  of JavaScript values.\<close>

datatype jsval =
    JUndefined
  | JNull
  | JBool bool
  | JNum int
  | JStr string
  | JDate time
  | JObj "(string \<times> jsval) list"

datatype jstype = TUndefined | TObject | TBoolean | TNumber | TString

fun typeof :: "jsval \<Rightarrow> jstype" where
  "typeof JUndefined = TUndefined"
| "typeof JNull = TObject"
| "typeof (JBool b) = TBoolean"
| "typeof (JNum n) = TNumber"
| "typeof (JStr s) = TString"
| "typeof (JDate t) = TObject"
| "typeof (JObj kvs) = TObject"

fun truthy :: "jsval \<Rightarrow> bool" where
  "truthy JUndefined = False"
| "truthy JNull = False"
| "truthy (JBool b) = b"
| "truthy (JNum n) = (n \<noteq> 0)"
| "truthy (JStr s) = (s \<noteq> [])"
| "truthy (JDate t) = True"
| "truthy (JObj kvs) = True"

text \<open>Property read \<^verbatim>\<open>v.k\<close> and \<^verbatim>\<open>v?.k\<close>. A missing property is \<^verbatim>\<open>undefined\<close>. Every plain
  read in the modelled functions is behind a guard that excludes \<^verbatim>\<open>null\<close> and
  \<^verbatim>\<open>undefined\<close>, so the TypeError of a read on those never arises there.\<close>

fun getProp :: "jsval \<Rightarrow> string \<Rightarrow> jsval" where
  "getProp (JObj kvs) k = (case map_of kvs k of None \<Rightarrow> JUndefined | Some v \<Rightarrow> v)"
| "getProp v k = JUndefined"

text \<open>The operator \<^verbatim>\<open>a || b\<close>.\<close>

definition js_or :: "jsval \<Rightarrow> jsval \<Rightarrow> jsval" where
  "js_or a b = (if truthy a then a else b)"

fun instanceofDate :: "jsval \<Rightarrow> bool" where
  "instanceofDate (JDate t) = True"
| "instanceofDate v = False"

text \<open>Class \<^verbatim>\<open>NotificationMarkerPayload\<close>, as the subscription resolver returns it.\<close>

record notificationMarkerPayload =
  p_markerVersion :: int
  p_blog :: jsval
  p_createdAt :: time
  p_cursor :: "int option"

text \<open>A live subscription: the \<^verbatim>\<open>cursor\<close> variable it was opened with (absent or
  \<^verbatim>\<open>null\<close> is \<open>None\<close>) and what it has been sent so far.\<close>

record listener =
  l_cursor :: "int option"
  l_received :: "notificationMarkerPayload list"

subsection \<open>Errors, environment and the state of the system\<close>

datatype error =
    Error string
  | NotFoundException string
  | RedisError
  | PubSubError

type_synonym 'a result = "error + 'a"

text \<open>What the surroundings decide for one call: the clock, a fresh uuid, whether the
  Redis commands succeed, whether the in-memory PubSub accepts a publish, and
  \<^verbatim>\<open>Date.prototype.toISOString\<close>.\<close>

record env =
  env_now :: time
  env_uuid :: string
  env_redisUp :: bool
  env_pubsubOk :: bool
  env_toISOString :: "time \<Rightarrow> string"

text \<open>
  The repositories, the Redis list and channel, the live subscriptions, the lines written
  with \<^verbatim>\<open>console.error\<close> (\<^verbatim>\<open>console.warn\<close> and \<^verbatim>\<open>console.log\<close> are diagnostics and are
  left out), and the worker's two fields. A table is a map from the primary key, except
  the marker table, a list of rows in the order of their inserts with its counter
  \<open>markerSeq\<close>; rows are stored without their relations, which a query fills in. The
  cursor table maps \<^verbatim>\<open>userId\<close> to \<^verbatim>\<open>lastSeenMarkerVersion\<close>. A logged line is the message text;
  the error object printed after it and values interpolated into an Error's message are
  left out. Database commands always succeed in this model; Redis and PubSub commands fail
  when the environment says so.
\<close>

record world =
  users :: "string \<rightharpoonup> user"
  blogs :: "string \<rightharpoonup> blog"
  markers :: "marker list"
  markerSeq :: int
  userStates :: "string \<rightharpoonup> int"
  queue :: "blogCreatedEvent list"
  redisChannel :: "jsval list"
  listeners :: "listener list"
  errorLog :: "string list"
  isProcessing :: bool
  processingInterval :: bool

section \<open>Marker queries and the read cursor (NotificationService)\<close>

text \<open>Joins \<^verbatim>\<open>relations: ['blog', 'blog.author']\<close> and \<^verbatim>\<open>leftJoinAndSelect\<close>: a left
  join, so a marker whose blog row is gone is kept with no blog.\<close>

definition loadBlog :: "world \<Rightarrow> string \<Rightarrow> blog option" where
  "loadBlog w bid =
     (case blogs w bid of
        None \<Rightarrow> None
      | Some b \<Rightarrow> Some (b\<lparr>blog_author := users w (blog_authorId b)\<rparr>))"

definition loadMarker :: "world \<Rightarrow> marker \<Rightarrow> marker" where
  "loadMarker w m = m\<lparr>marker_blog := loadBlog w (blogId m)\<rparr>"

text \<open>\<^verbatim>\<open>WHERE blog.createdAt > :userCreatedAt\<close>: false on the NULL of a missing blog.\<close>

definition blogCreatedAfter :: "time \<Rightarrow> marker \<Rightarrow> bool" where
  "blogCreatedAfter t m =
     (case marker_blog m of None \<Rightarrow> False | Some b \<Rightarrow> blog_createdAt b > t)"

definition getUnreadMarkers :: "user \<Rightarrow> world \<Rightarrow> marker list \<times> world" where
  "getUnreadMarkers u w =
     (let (st, w1) =
        (case userStates w (user_id u) of
           Some v \<Rightarrow> (\<lparr>userId = user_id u, lastSeenMarkerVersion = v\<rparr>, w)
         | None \<Rightarrow> (\<lparr>userId = user_id u, lastSeenMarkerVersion = 0\<rparr>,
                    w\<lparr>userStates := (userStates w)(user_id u \<mapsto> 0)\<rparr>))
      in (sort_key markerVersion
            (filter (\<lambda>m. markerVersion m > lastSeenMarkerVersion st)
               (map (loadMarker w1) (markers w1))), w1))"

definition getAllMarkers :: "user \<Rightarrow> world \<Rightarrow> marker list \<times> world" where
  "getAllMarkers u w =
     (case users w (user_id u) of
        None \<Rightarrow> ([], w\<lparr>errorLog := errorLog w @ [''User '' @ user_id u @ '' not found or has no createdAt date'']\<rparr>)
      | Some freshUser \<Rightarrow>
          (case user_createdAt freshUser of
             None \<Rightarrow> ([], w\<lparr>errorLog := errorLog w @ [''User '' @ user_id u @ '' not found or has no createdAt date'']\<rparr>)
           | Some c \<Rightarrow>
               (let userCreatedAt = c - 1000
                in (rev (sort_key markerVersion
                      (filter (blogCreatedAfter userCreatedAt)
                         (map (loadMarker w) (markers w)))), w))))"

definition markAsSeen :: "user \<Rightarrow> int \<Rightarrow> world \<Rightarrow> userState \<times> world" where
  "markAsSeen u mv w =
     (let st =
        (case userStates w (user_id u) of
           None \<Rightarrow> \<lparr>userId = user_id u, lastSeenMarkerVersion = mv\<rparr>
         | Some v \<Rightarrow> \<lparr>userId = user_id u, lastSeenMarkerVersion = max v mv\<rparr>)
      in (st, w\<lparr>userStates := (userStates w)(userId st \<mapsto> lastSeenMarkerVersion st)\<rparr>))"

definition getUserState :: "user \<Rightarrow> world \<Rightarrow> userState \<times> world" where
  "getUserState u w =
     (case userStates w (user_id u) of
        Some v \<Rightarrow> (\<lparr>userId = user_id u, lastSeenMarkerVersion = v\<rparr>, w)
      | None \<Rightarrow> (\<lparr>userId = user_id u, lastSeenMarkerVersion = 0\<rparr>,
                 w\<lparr>userStates := (userStates w)(user_id u \<mapsto> 0)\<rparr>))"

definition getUnreadCount :: "user \<Rightarrow> world \<Rightarrow> nat \<times> world" where
  "getUnreadCount u w =
     (let (st, w1) =
        (case userStates w (user_id u) of
           Some v \<Rightarrow> (\<lparr>userId = user_id u, lastSeenMarkerVersion = v\<rparr>, w)
         | None \<Rightarrow> (\<lparr>userId = user_id u, lastSeenMarkerVersion = 0\<rparr>,
                    w\<lparr>userStates := (userStates w)(user_id u \<mapsto> 0)\<rparr>))
      in (case users w1 (user_id u) of
            None \<Rightarrow> (0, w1\<lparr>errorLog := errorLog w1 @ [''User '' @ user_id u @ '' not found or has no createdAt date'']\<rparr>)
          | Some freshUser \<Rightarrow>
              (case user_createdAt freshUser of
                 None \<Rightarrow> (0, w1\<lparr>errorLog := errorLog w1 @ [''User '' @ user_id u @ '' not found or has no createdAt date'']\<rparr>)
               | Some c \<Rightarrow>
                   (let userCreatedAt = c - 1000
                    in (length
                          (filter (\<lambda>m. markerVersion m > lastSeenMarkerVersion st
                                        \<and> blogCreatedAfter userCreatedAt m)
                             (map (loadMarker w1) (markers w1))), w1)))))"

text \<open>Class \<^verbatim>\<open>UnreadCountResponse\<close> and the mutation \<^verbatim>\<open>updateLastSeenMarkerVersion\<close> of the
  auth resolver.\<close>

record unreadCountResponse =
  r_count :: nat
  r_lastSeenMarkerVersion :: int

definition updateLastSeenMarkerVersion :: "int \<Rightarrow> user \<Rightarrow> world \<Rightarrow> unreadCountResponse \<times> world" where
  "updateLastSeenMarkerVersion mv u w =
     (let (st, w1) = markAsSeen u mv w;
          (count, w2) = getUnreadCount u w1
      in (\<lparr>r_count = count, r_lastSeenMarkerVersion = lastSeenMarkerVersion st\<rparr>, w2))"


section \<open>The subscription resolver (NotificationResolver)\<close>

definition createDefaultPayload :: "env \<Rightarrow> notificationMarkerPayload" where
  "createDefaultPayload e =
     \<lparr>p_markerVersion = 0, p_blog = JNull, p_createdAt = env_now e, p_cursor = Some 0\<rparr>"

definition safeResolvePayload :: "env \<Rightarrow> jsval \<Rightarrow> notificationMarkerPayload" where
  "safeResolvePayload e payload =
     (if \<not> truthy payload \<or> typeof payload \<noteq> TObject then createDefaultPayload e
      else
        (let hasMarkerVersion =
               (case getProp payload ''markerVersion'' of JNum n \<Rightarrow> n > 0 | _ \<Rightarrow> False);
             hasBlog = (truthy (getProp payload ''blog'')
                        \<and> typeof (getProp payload ''blog'') = TObject);
             hasCreatedAt = instanceofDate (getProp payload ''createdAt'')
         in if \<not> hasMarkerVersion \<or> \<not> hasBlog \<or> \<not> hasCreatedAt then createDefaultPayload e
            else
              (case (getProp payload ''markerVersion'', getProp payload ''createdAt'') of
                 (JNum n, JDate t) \<Rightarrow>
                   \<lparr>p_markerVersion = n, p_blog = getProp payload ''blog'',
                    p_createdAt = t, p_cursor = Some n\<rparr>
               | _ \<Rightarrow> createDefaultPayload e)))"

text \<open>Both options of the decorator start by unwrapping
  \<^verbatim>\<open>payload?.newNotificationMarker\<close> when it is defined.\<close>

definition actualPayload :: "jsval \<Rightarrow> jsval" where
  "actualPayload payload =
     (if getProp payload ''newNotificationMarker'' \<noteq> JUndefined
      then getProp payload ''newNotificationMarker'' else payload)"

text \<open>The \<^verbatim>\<open>filter\<close> option of the subscription; \<open>cursor\<close> is \<^verbatim>\<open>variables.cursor\<close>.\<close>

definition subscription_filter :: "jsval \<Rightarrow> int option \<Rightarrow> bool" where
  "subscription_filter payload cursor =
     (case cursor of
        Some c \<Rightarrow>
          (case getProp (actualPayload payload) ''markerVersion'' of
             JNum mv \<Rightarrow> mv > c
           | _ \<Rightarrow> False)
      | None \<Rightarrow> True)"

text \<open>The \<^verbatim>\<open>resolve\<close> option of the subscription.\<close>

definition subscription_resolve :: "env \<Rightarrow> jsval \<Rightarrow> notificationMarkerPayload" where
  "subscription_resolve e payload =
     (let resolvedPayload = safeResolvePayload e (actualPayload payload)
      in if (p_cursor resolvedPayload = None \<or> p_cursor resolvedPayload = Some 0)
            \<and> p_markerVersion resolvedPayload > 0
         then resolvedPayload\<lparr>p_cursor := Some (p_markerVersion resolvedPayload)\<rparr>
         else resolvedPayload)"

text \<open>Modelled from the spec: the in-memory PubSub of the library graphql-subscriptions is
  not part of the sources. The spec's local fan-out "delivers to every current listener",
  and the subscription layer passes each published payload through the subscription's
  \<^verbatim>\<open>filter\<close> and, when that holds, sends the listener what \<^verbatim>\<open>resolve\<close> returns.\<close>

definition deliver :: "env \<Rightarrow> jsval \<Rightarrow> listener \<Rightarrow> listener" where
  "deliver e payload l =
     (if subscription_filter payload (l_cursor l)
      then l\<lparr>l_received := l_received l @ [subscription_resolve e payload]\<rparr>
      else l)"

definition pubSub_publish :: "env \<Rightarrow> jsval \<Rightarrow> world \<Rightarrow> world" where
  "pubSub_publish e payload w = w\<lparr>listeners := map (deliver e payload) (listeners w)\<rparr>"

section \<open>Publishing a marker (NotificationService)\<close>

definition safePublishMarker :: "env \<Rightarrow> jsval \<Rightarrow> world \<Rightarrow> unit result \<times> world" where
  "safePublishMarker e payload w =
     (if \<not> truthy payload then
        (Inl (Error ''Cannot publish null or undefined payload''), w)
      else if (case getProp payload ''markerVersion'' of JNum n \<Rightarrow> n \<le> 0 | _ \<Rightarrow> True) then
        (Inl (Error ''Invalid markerVersion. Must be a positive number.''), w)
      else if \<not> truthy (getProp payload ''blog'')
              \<or> typeof (getProp payload ''blog'') \<noteq> TObject then
        (Inl (Error ''Invalid blog: must be a valid Blog object''), w)
      else if \<not> truthy (getProp (getProp payload ''blog'') ''id'') then
        (Inl (Error ''Invalid blog: missing id field''), w)
      else
        (let authorId = js_or (getProp (getProp (getProp payload ''blog'') ''author'') ''id'')
                              (getProp (getProp payload ''blog'') ''authorId'')
         in if \<not> truthy authorId then
              (Inl (Error ''Invalid blog: missing author information (author.id or authorId) - required for notification filtering''), w)
            else if \<not> instanceofDate (getProp payload ''createdAt'') then
              (Inl (Error ''Invalid createdAt: must be a Date object''), w)
            else if env_pubsubOk e then (Inr (), pubSub_publish e payload w)
            else (Inl PubSubError,
                  w\<lparr>errorLog := errorLog w @ [''Error publishing to local PubSub:'']\<rparr>)))"

text \<open>\<^verbatim>\<open>x.toISOString()\<close>: a TypeError (\<open>None\<close>) unless \<^verbatim>\<open>x\<close> is a Date.\<close>

definition toISOString :: "env \<Rightarrow> jsval \<Rightarrow> jsval option" where
  "toISOString e v = (case v of JDate t \<Rightarrow> Some (JStr (env_toISOString e t)) | _ \<Rightarrow> None)"

text \<open>The object literal \<^verbatim>\<open>redisPayload\<close> of \<^verbatim>\<open>safePublishToRedis\<close>; \<open>None\<close> when building it
  throws.\<close>

definition redisAuthor :: "env \<Rightarrow> jsval \<Rightarrow> jsval option" where
  "redisAuthor e author =
     (if truthy author then
        (case (toISOString e (getProp author ''createdAt''),
               toISOString e (getProp author ''updatedAt'')) of
           (Some c, Some u) \<Rightarrow>
             Some (JObj [(''id'', getProp author ''id''), (''email'', getProp author ''email''),
                         (''username'', getProp author ''username''),
                         (''createdAt'', c), (''updatedAt'', u)])
         | _ \<Rightarrow> None)
      else Some JUndefined)"

definition redisPayload :: "env \<Rightarrow> jsval \<Rightarrow> jsval option" where
  "redisPayload e payload =
     (let b = getProp payload ''blog''
      in case (toISOString e (getProp b ''createdAt''), toISOString e (getProp b ''updatedAt''),
               redisAuthor e (getProp b ''author''),
               toISOString e (getProp payload ''createdAt'')) of
           (Some bc, Some bu, Some a, Some c) \<Rightarrow>
             Some (JObj [(''markerVersion'', getProp payload ''markerVersion''),
                         (''blog'', JObj [(''id'', getProp b ''id''), (''title'', getProp b ''title''),
                                          (''content'', getProp b ''content''),
                                          (''createdAt'', bc), (''updatedAt'', bu),
                                          (''authorId'', getProp b ''authorId''),
                                          (''author'', a)]),
                         (''createdAt'', c),
                         (''cursor'', js_or (getProp payload ''cursor'')
                                            (getProp payload ''markerVersion''))])
         | _ \<Rightarrow> None)"

definition safePublishToRedis :: "env \<Rightarrow> jsval \<Rightarrow> world \<Rightarrow> world" where
  "safePublishToRedis e payload w =
     (case redisPayload e payload of
        None \<Rightarrow> w\<lparr>errorLog := errorLog w @ [''Error publishing to Redis:'']\<rparr>
      | Some msg \<Rightarrow>
          if env_redisUp e then w\<lparr>redisChannel := redisChannel w @ [msg]\<rparr>
          else w\<lparr>errorLog := errorLog w @ [''Error publishing to Redis:'']\<rparr>)"

text \<open>The two awaited calls that end \<^verbatim>\<open>createMarker\<close>:
  \<^verbatim>\<open>safePublishMarker(markerPayload)\<close>, whose exception leaves the function, then
  \<^verbatim>\<open>safePublishToRedis(markerPayload)\<close>.\<close>

definition publishMarker :: "env \<Rightarrow> jsval \<Rightarrow> world \<Rightarrow> unit result \<times> world" where
  "publishMarker e payload w =
     (case safePublishMarker e payload w of
        (Inl err, w1) \<Rightarrow> (Inl err, w1)
      | (Inr u, w1) \<Rightarrow> (Inr (), safePublishToRedis e payload w1))"

text \<open>An entity as the JavaScript object the publish functions inspect.\<close>

definition user_js :: "user \<Rightarrow> jsval" where
  "user_js u =
     JObj [(''id'', JStr (user_id u)), (''email'', JStr (user_email u)),
           (''username'', JStr (user_username u)),
           (''createdAt'', (case user_createdAt u of None \<Rightarrow> JNull | Some t \<Rightarrow> JDate t)),
           (''updatedAt'', JDate (user_updatedAt u))]"

definition author_js :: "user option \<Rightarrow> jsval" where
  "author_js a = (case a of None \<Rightarrow> JNull | Some u \<Rightarrow> user_js u)"

text \<open>The literal \<^verbatim>\<open>markerPayload\<close> of \<^verbatim>\<open>createMarker\<close>: the blog spread, with \<^verbatim>\<open>author\<close> and
  \<^verbatim>\<open>authorId: blog.authorId || blog.author?.id\<close> set explicitly.\<close>

definition markerPayload :: "marker \<Rightarrow> blog \<Rightarrow> jsval" where
  "markerPayload m b =
     JObj [(''markerVersion'', JNum (markerVersion m)),
           (''blog'', JObj [(''id'', JStr (blog_id b)), (''title'', JStr (blog_title b)),
                            (''content'', JStr (blog_content b)),
                            (''createdAt'', JDate (blog_createdAt b)),
                            (''updatedAt'', JDate (blog_updatedAt b)),
                            (''author'', author_js (blog_author b)),
                            (''authorId'', js_or (JStr (blog_authorId b))
                                                 (getProp (author_js (blog_author b)) ''id''))]),
           (''createdAt'', JDate (marker_createdAt m)),
           (''cursor'', JNum (markerVersion m))]"

text \<open>\<^verbatim>\<open>markerRepository.findOne({ where: { markerVersion }, relations })\<close>.\<close>

definition findOneMarker :: "world \<Rightarrow> int \<Rightarrow> marker option" where
  "findOneMarker w v =
     (case find (\<lambda>m. markerVersion m = v) (markers w) of
        None \<Rightarrow> None
      | Some m \<Rightarrow> Some (loadMarker w m))"

text \<open>Modelled from the spec: the insert of \<^verbatim>\<open>markerRepository.save\<close> runs in the database,
  outside the sources. The entity declares \<^verbatim>\<open>markerVersion\<close> as
  \<^verbatim>\<open>@PrimaryGeneratedColumn({ type: 'int' })\<close> and \<^verbatim>\<open>createdAt\<close> as \<^verbatim>\<open>@CreateDateColumn()\<close>;
  the spec's marker store "allocates the next version via a single auto-incrementing
  sequence" and persists the row "atomically with version assignment". The counter is the
  field \<open>markerSeq\<close>.\<close>

definition saveMarker :: "env \<Rightarrow> blog \<Rightarrow> world \<Rightarrow> marker \<times> world" where
  "saveMarker e b w =
     (let row = \<lparr>markerVersion = markerSeq w, blogId = blog_id b, marker_blog = None,
                 marker_createdAt = env_now e\<rparr>
      in (row\<lparr>marker_blog := Some b\<rparr>,
          w\<lparr>markers := markers w @ [row], markerSeq := markerSeq w + 1\<rparr>))"

definition createMarker :: "env \<Rightarrow> blog \<Rightarrow> world \<Rightarrow> marker result \<times> world" where
  "createMarker e b w =
     (let (savedMarker, w1) = saveMarker e b w
      in case findOneMarker w1 (markerVersion savedMarker) of
           None \<Rightarrow> (Inl (Error ''Failed to load marker with blog''), w1)
         | Some markerWithBlog \<Rightarrow>
             (case marker_blog markerWithBlog of
                None \<Rightarrow> (Inl (Error ''Failed to load blog relation for marker''), w1)
              | Some b1 \<Rightarrow>
                  (case (case blog_author b1 of
                           Some a \<Rightarrow> Some b1
                         | None \<Rightarrow>
                             (case findOneMarker w1 (markerVersion savedMarker) of
                                None \<Rightarrow> None
                              | Some reloadedMarker \<Rightarrow>
                                  (case marker_blog reloadedMarker of
                                     None \<Rightarrow> None
                                   | Some rb \<Rightarrow>
                                       (case blog_author rb of
                                          None \<Rightarrow> None
                                        | Some ra \<Rightarrow> Some rb)))) of
                     None \<Rightarrow>
                       (Inl (Error ''Failed to load blog author relation - required for notification filtering''), w1)
                   | Some b2 \<Rightarrow>
                       (let b3 = (case blog_author b2 of
                                    Some a \<Rightarrow>
                                      if blog_authorId b2 = [] then b2\<lparr>blog_authorId := user_id a\<rparr>
                                      else b2
                                  | None \<Rightarrow> b2);
                            result = markerWithBlog\<lparr>marker_blog := Some b3\<rparr>;
                            payload = markerPayload result b3
                        in case publishMarker e payload w1 of
                             (Inl err, w2) \<Rightarrow> (Inl err, w2)
                           | (Inr u, w2) \<Rightarrow> (Inr result, w2)))))"

section \<open>Blog service and the event queue\<close>

text \<open>\<^verbatim>\<open>lpush\<close> puts the event at the head of the Redis list; a failure is logged and
  thrown again.\<close>

definition enqueueBlogCreatedEvent :: "env \<Rightarrow> blogCreatedEvent \<Rightarrow> world \<Rightarrow> unit result \<times> world" where
  "enqueueBlogCreatedEvent e ev w =
     (if env_redisUp e then (Inr (), w\<lparr>queue := ev # queue w\<rparr>)
      else (Inl RedisError,
            w\<lparr>errorLog := errorLog w @ [''Error enqueueing blog created event:'']\<rparr>))"

text \<open>\<^verbatim>\<open>brpop\<close> takes the event at the tail of the list, or nothing after the timeout; a
  failure is logged and becomes \<^verbatim>\<open>null\<close>.\<close>

definition dequeueBlogCreatedEvent :: "env \<Rightarrow> world \<Rightarrow> blogCreatedEvent option \<times> world" where
  "dequeueBlogCreatedEvent e w =
     (if env_redisUp e then
        (if queue w = [] then (None, w)
         else (Some (last (queue w)), w\<lparr>queue := butlast (queue w)\<rparr>))
      else (None, w\<lparr>errorLog := errorLog w @ [''Error dequeueing blog created event:'']\<rparr>))"

text \<open>Input type \<^verbatim>\<open>CreateBlogInput\<close>.\<close>

record createBlogInput =
  in_title :: string
  in_content :: string

text \<open>\<^verbatim>\<open>BlogService.create\<close>: the row gets a generated uuid and the creation instant from
  the database.\<close>

definition BlogService_create :: "env \<Rightarrow> createBlogInput \<Rightarrow> user \<Rightarrow> world \<Rightarrow> blog result \<times> world" where
  "BlogService_create e inp author w =
     (let savedBlog = \<lparr>blog_id = env_uuid e, blog_title = in_title inp,
                       blog_content = in_content inp, blog_createdAt = env_now e,
                       blog_updatedAt = env_now e, blog_authorId = user_id author,
                       blog_author = None\<rparr>;
          w1 = w\<lparr>blogs := (blogs w)(blog_id savedBlog \<mapsto> savedBlog)\<rparr>
      in case loadBlog w1 (blog_id savedBlog) of
           None \<Rightarrow> (Inl (Error ''Failed to load blog with author''), w1)
         | Some blogWithAuthor \<Rightarrow>
             (case enqueueBlogCreatedEvent e
                     \<lparr>ev_blogId = blog_id blogWithAuthor, ev_title = blog_title blogWithAuthor,
                      ev_authorId = blog_authorId blogWithAuthor,
                      ev_createdAt = blog_createdAt blogWithAuthor\<rparr> w1 of
                (Inl err, w2) \<Rightarrow> (Inl err, w2)
              | (Inr u, w2) \<Rightarrow> (Inr blogWithAuthor, w2)))"

definition BlogService_findOne :: "string \<Rightarrow> world \<Rightarrow> blog result" where
  "BlogService_findOne bid w =
     (case loadBlog w bid of
        None \<Rightarrow> Inl (NotFoundException (''Blog with ID '' @ bid @ '' not found''))
      | Some b \<Rightarrow> Inr b)"

section \<open>The worker (NotificationWorkerService)\<close>

text \<open>\<^verbatim>\<open>findOne\<close> throws when the blog is missing and a blog object is truthy, so the
  source's test \<^verbatim>\<open>if (!blog)\<close> never fires; the \<^verbatim>\<open>catch\<close> logs and throws again.\<close>

definition processBlogCreatedEvent :: "env \<Rightarrow> blogCreatedEvent \<Rightarrow> world \<Rightarrow> unit result \<times> world" where
  "processBlogCreatedEvent e ev w =
     (case BlogService_findOne (ev_blogId ev) w of
        Inl err \<Rightarrow>
          (Inl err, w\<lparr>errorLog := errorLog w @ [''Error processing blog created event '' @ ev_blogId ev @ '':'']\<rparr>)
      | Inr b \<Rightarrow>
          (case createMarker e b w of
             (Inl err, w1) \<Rightarrow>
               (Inl err, w1\<lparr>errorLog := errorLog w1 @ [''Error processing blog created event '' @ ev_blogId ev @ '':'']\<rparr>)
           | (Inr m, w1) \<Rightarrow> (Inr (), w1)))"

text \<open>One run of \<^verbatim>\<open>processQueue\<close>: the \<^verbatim>\<open>try\<close> with its \<^verbatim>\<open>catch\<close>, then the \<^verbatim>\<open>finally\<close> that
  arms the timer for the next run (field \<open>processingInterval\<close>: a timer is pending).\<close>

definition processQueue :: "env \<Rightarrow> world \<Rightarrow> world" where
  "processQueue e w =
     (if \<not> isProcessing w then w
      else
        (let (event, w1) = dequeueBlogCreatedEvent e w;
             w2 = (case event of
                     None \<Rightarrow> w1
                   | Some ev \<Rightarrow>
                       (case processBlogCreatedEvent e ev w1 of
                          (Inl err, w') \<Rightarrow> w'\<lparr>errorLog := errorLog w' @ [''Error processing queue:'']\<rparr>
                        | (Inr u, w') \<Rightarrow> w'))
         in if isProcessing w2 then w2\<lparr>processingInterval := True\<rparr> else w2))"

text \<open>\<^verbatim>\<open>startProcessing\<close> and \<^verbatim>\<open>stopProcessing\<close>.\<close>

definition stopProcessing :: "world \<Rightarrow> world" where
  "stopProcessing w = w\<lparr>isProcessing := False, processingInterval := False\<rparr>"

definition startProcessing :: "env \<Rightarrow> world \<Rightarrow> world" where
  "startProcessing e w =
     (if isProcessing w then w else processQueue e (w\<lparr>isProcessing := True\<rparr>))"

text \<open>The loop: each pending timer fires and runs \<^verbatim>\<open>processQueue\<close> once more. The loop has no
  end of its own, so a run is given the environments of the cycles observed; it stops
  before the list is used up exactly when no timer is pending.\<close>

fun runWorker :: "env list \<Rightarrow> world \<Rightarrow> world" where
  "runWorker [] w = w"
| "runWorker (e # es) w =
     (if processingInterval w
      then runWorker es (processQueue e (w\<lparr>processingInterval := False\<rparr>))
      else w)"


section \<open>Statements of the specification\<close>

text \<open>The specification's unread count for a cursor \<open>v\<close> and a registration instant \<open>t\<close>:
  the number of markers with a version above \<open>v\<close> whose blog was created after \<open>t\<close> minus
  one second.\<close>

definition unreadVisibleCount :: "world \<Rightarrow> int \<Rightarrow> time \<Rightarrow> nat" where
  "unreadVisibleCount w v t =
     card {m \<in> set (map (loadMarker w) (markers w)).
             v < markerVersion m \<and> blogCreatedAfter (t - 1000) m}"

text \<open>The specification's contract for a payload handed to publish: the version is a
  positive number, a blog object with a non-empty id is present, an author identifier
  comes from \<^verbatim>\<open>blog.author.id\<close> or \<^verbatim>\<open>blog.authorId\<close>, and \<^verbatim>\<open>createdAt\<close> is a Date.\<close>

definition positiveNumber :: "jsval \<Rightarrow> bool" where
  "positiveNumber v = (case v of JNum n \<Rightarrow> 0 < n | _ \<Rightarrow> False)"

definition isObject :: "jsval \<Rightarrow> bool" where
  "isObject v = (case v of JObj kvs \<Rightarrow> True | JDate t \<Rightarrow> True | _ \<Rightarrow> False)"

definition validMarkerPayload :: "jsval \<Rightarrow> bool" where
  "validMarkerPayload p =
     (positiveNumber (getProp p ''markerVersion'')
      \<and> isObject (getProp p ''blog'')
      \<and> truthy (getProp (getProp p ''blog'') ''id'')
      \<and> (truthy (getProp (getProp (getProp p ''blog'') ''author'') ''id'')
         \<or> truthy (getProp (getProp p ''blog'') ''authorId''))
      \<and> instanceofDate (getProp p ''createdAt''))"

text \<open>What the subscription layer takes for a usable payload: an object with a positive
  numeric version, a blog object and a Date.\<close>

definition resolvablePayload :: "jsval \<Rightarrow> bool" where
  "resolvablePayload p =
     (isObject p
      \<and> positiveNumber (getProp p ''markerVersion'')
      \<and> isObject (getProp p ''blog'')
      \<and> instanceofDate (getProp p ''createdAt''))"

text \<open>A run of \<^verbatim>\<open>createMarker\<close> calls, in the order of their inserts. The insert is the only
  write a call makes to the marker table, so callers that overlap in time are such a run
  too, ordered by the database.\<close>

fun createMarkers :: "(env \<times> blog) list \<Rightarrow> world \<Rightarrow> marker result list \<times> world" where
  "createMarkers [] w = ([], w)"
| "createMarkers ((e, b) # cs) w =
     (let (r, w1) = createMarker e b w;
          (rs, w2) = createMarkers cs w1
      in (r # rs, w2))"

fun returnedVersions :: "marker result list \<Rightarrow> int list" where
  "returnedVersions [] = []"
| "returnedVersions (Inl err # rs) = returnedVersions rs"
| "returnedVersions (Inr m # rs) = markerVersion m # returnedVersions rs"

text \<open>The primary key of the marker table: versions are unique and below the counter.\<close>

definition markerStoreOK :: "world \<Rightarrow> bool" where
  "markerStoreOK w =
     (distinct (map markerVersion (markers w))
      \<and> list_all (\<lambda>m. markerVersion m < markerSeq w) (markers w))"

section \<open>Example data\<close>

definition alice :: user where
  "alice = \<lparr>user_id = ''u1'', user_email = ''alice@example.org'', user_username = ''alice'',
            user_createdAt = Some 100000, user_updatedAt = 100000\<rparr>"

definition bob :: user where
  "bob = \<lparr>user_id = ''u2'', user_email = ''bob@example.org'', user_username = ''bob'',
          user_createdAt = Some 5000, user_updatedAt = 5000\<rparr>"

definition blogOld :: blog where
  "blogOld = \<lparr>blog_id = ''b1'', blog_title = ''Old'', blog_content = ''x'',
              blog_createdAt = 98000, blog_updatedAt = 98000, blog_authorId = ''u2'',
              blog_author = None\<rparr>"

definition blogNew :: blog where
  "blogNew = \<lparr>blog_id = ''b2'', blog_title = ''New'', blog_content = ''y'',
              blog_createdAt = 100001, blog_updatedAt = 100001, blog_authorId = ''u2'',
              blog_author = None\<rparr>"

definition blogNewer :: blog where
  "blogNewer = \<lparr>blog_id = ''b3'', blog_title = ''Newer'', blog_content = ''z'',
                blog_createdAt = 100500, blog_updatedAt = 100500, blog_authorId = ''u2'',
                blog_author = None\<rparr>"

definition markerOld :: marker where
  "markerOld = \<lparr>markerVersion = 1, blogId = ''b1'', marker_blog = None, marker_createdAt = 98010\<rparr>"

definition markerNew :: marker where
  "markerNew = \<lparr>markerVersion = 2, blogId = ''b2'', marker_blog = None, marker_createdAt = 100011\<rparr>"

definition markerNewer :: marker where
  "markerNewer = \<lparr>markerVersion = 3, blogId = ''b3'', marker_blog = None, marker_createdAt = 100510\<rparr>"

text \<open>Three blogs by bob, one marker each; alice registered at 100000 and has no cursor
  row yet.\<close>

definition exampleWorld :: world where
  "exampleWorld =
     \<lparr>users = map_of [(''u1'', alice), (''u2'', bob)],
      blogs = map_of [(''b1'', blogOld), (''b2'', blogNew), (''b3'', blogNewer)],
      markers = [markerOld, markerNew, markerNewer],
      markerSeq = 4,
      userStates = map_of [],
      queue = [],
      redisChannel = [],
      listeners = [],
      errorLog = [],
      isProcessing = True,
      processingInterval = True\<rparr>"

text \<open>The same with alice's cursor at 2.\<close>

definition seenWorld :: world where
  "seenWorld = exampleWorld\<lparr>userStates := map_of [(''u1'', 2)]\<rparr>"

definition upEnv :: env where
  "upEnv = \<lparr>env_now = 200000, env_uuid = ''b9'', env_redisUp = True, env_pubsubOk = True,
            env_toISOString = (\<lambda>t. ''iso'')\<rparr>"

definition downEnv :: env where
  "downEnv = upEnv\<lparr>env_redisUp := False\<rparr>"

definition exampleInput :: createBlogInput where
  "exampleInput = \<lparr>in_title = ''Intro'', in_content = ''Hello''\<rparr>"

text \<open>Two subscriptions, one opened without a cursor and one with cursor 3.\<close>

definition plainListener :: listener where
  "plainListener = \<lparr>l_cursor = None, l_received = []\<rparr>"

definition cursorListener :: listener where
  "cursorListener = \<lparr>l_cursor = Some 3, l_received = []\<rparr>"

definition listeningWorld :: world where
  "listeningWorld = exampleWorld\<lparr>listeners := [plainListener, cursorListener]\<rparr>"

text \<open>A payload with version 5 and a Date but no blog, and the payload \<^verbatim>\<open>createMarker\<close>
  builds for the second marker.\<close>

definition missingBlogPayload :: jsval where
  "missingBlogPayload =
     JObj [(''markerVersion'', JNum 5), (''blog'', JNull), (''createdAt'', JDate 200000)]"

definition secondPayload :: jsval where
  "secondPayload = markerPayload markerNew (blogNew\<lparr>blog_author := Some bob\<rparr>)"

definition noPubSubEnv :: env where
  "noPubSubEnv = upEnv\<lparr>env_pubsubOk := False\<rparr>"

text \<open>Three calls of \<^verbatim>\<open>createMarker\<close>; the PubSub refuses the publish of the second.\<close>

definition exampleCalls :: "(env \<times> blog) list" where
  "exampleCalls = [(upEnv, blogOld), (noPubSubEnv, blogNew), (upEnv, blogNewer)]"

text \<open>A queue holding an event for a blog that does not exist (at the tail, dequeued
  first) and one for the third blog.\<close>

definition ghostEvent :: blogCreatedEvent where
  "ghostEvent = \<lparr>ev_blogId = ''gone'', ev_title = ''Ghost'', ev_authorId = ''u2'',
                 ev_createdAt = 150000\<rparr>"

definition newerEvent :: blogCreatedEvent where
  "newerEvent = \<lparr>ev_blogId = ''b3'', ev_title = ''Newer'', ev_authorId = ''u2'',
                 ev_createdAt = 100500\<rparr>"

definition queuedWorld :: world where
  "queuedWorld = exampleWorld\<lparr>queue := [newerEvent, ghostEvent]\<rparr>"

section \<open>Facts about the example data\<close>

lemmas example_defs =
  alice_def bob_def blogOld_def blogNew_def blogNewer_def markerOld_def markerNew_def
  markerNewer_def exampleWorld_def seenWorld_def

lemmas query_defs = loadMarker_def loadBlog_def blogCreatedAfter_def

section \<open>Registration horizon of getAllMarkers\<close>

lemma sorted_desc_rev_sort_key:
  "sorted_wrt (\<lambda>a b. f a \<ge> f b) (rev (sort_key f xs))"
  using sorted_sort_key [of f xs] by (simp add: sorted_wrt_rev sorted_map)

text \<open>
  C5. For a user whose row is found with registration instant \<open>T\<close>, \<open>getAllMarkers\<close>
  returns exactly the joined markers whose blog was created strictly after \<open>T - 1000\<close> ms,
  in descending order of version; the \<open>createdAt\<close> carried by the argument plays no part
  (the row is read again on every call); a marker whose blog was created at \<open>T - 2000\<close> is
  never returned and one whose blog was created at \<open>T + 1\<close> always is.
\<close>

theorem getAllMarkers_registration_horizon:
  assumes "users w (user_id u) = Some fu" and "user_createdAt fu = Some T"
  shows "mset (fst (getAllMarkers u w)) =
           filter_mset (\<lambda>m. \<exists>b. marker_blog m = Some b \<and> T - 1000 < blog_createdAt b)
             (mset (map (loadMarker w) (markers w)))
         \<and> sorted_wrt (\<lambda>a b. markerVersion a \<ge> markerVersion b) (fst (getAllMarkers u w))
         \<and> getAllMarkers (u\<lparr>user_createdAt := x\<rparr>) w = getAllMarkers u w
         \<and> (\<forall>m \<in> set (markers w). \<forall>b. blogs w (blogId m) = Some b \<and> blog_createdAt b = T - 2000
               \<longrightarrow> loadMarker w m \<notin> set (fst (getAllMarkers u w)))
         \<and> (\<forall>m \<in> set (markers w). \<forall>b. blogs w (blogId m) = Some b \<and> blog_createdAt b = T + 1
               \<longrightarrow> loadMarker w m \<in> set (fst (getAllMarkers u w)))"
proof -
  let ?P = "\<lambda>m. \<exists>b. marker_blog m = Some b \<and> T - 1000 < blog_createdAt b"
  have P: "blogCreatedAfter (T - 1000) = ?P"
    by (auto simp: blogCreatedAfter_def fun_eq_iff split: option.splits)
  have res: "fst (getAllMarkers u w) =
      rev (sort_key markerVersion (filter ?P (map (loadMarker w) (markers w))))"
    using assms by (simp add: getAllMarkers_def P)
  have 1: "mset (fst (getAllMarkers u w)) = filter_mset ?P (mset (map (loadMarker w) (markers w)))"
    unfolding res by simp
  have 2: "sorted_wrt (\<lambda>a b. markerVersion a \<ge> markerVersion b) (fst (getAllMarkers u w))"
    unfolding res by (rule sorted_desc_rev_sort_key)
  have 3: "getAllMarkers (u\<lparr>user_createdAt := x\<rparr>) w = getAllMarkers u w"
    by (simp add: getAllMarkers_def split: option.splits)
  have 4: "\<forall>m \<in> set (markers w). \<forall>b. blogs w (blogId m) = Some b \<and> blog_createdAt b = T - 2000
               \<longrightarrow> loadMarker w m \<notin> set (fst (getAllMarkers u w))"
    unfolding res by (auto simp: loadMarker_def loadBlog_def)
  have 5: "\<forall>m \<in> set (markers w). \<forall>b. blogs w (blogId m) = Some b \<and> blog_createdAt b = T + 1
               \<longrightarrow> loadMarker w m \<in> set (fst (getAllMarkers u w))"
  proof (intro ballI allI impI)
    fix m b
    assume m: "m \<in> set (markers w)"
      and b: "blogs w (blogId m) = Some b \<and> blog_createdAt b = T + 1"
    from b have "?P (loadMarker w m)"
      by (simp add: loadMarker_def loadBlog_def)
    with m show "loadMarker w m \<in> set (fst (getAllMarkers u w))"
      unfolding res by simp
  qed
  from 1 2 3 4 5 show ?thesis by blast
qed

theorem getAllMarkers_registration_horizon_witness:
  "users exampleWorld (user_id alice) = Some alice \<and> user_createdAt alice = Some 100000
   \<and> markerOld \<in> set (markers exampleWorld) \<and> blog_createdAt blogOld = 100000 - 2000
   \<and> markerNew \<in> set (markers exampleWorld) \<and> blog_createdAt blogNew = 100000 + 1
   \<and> map markerVersion (fst (getAllMarkers alice exampleWorld)) = [3, 2]
   \<and> loadMarker exampleWorld markerOld \<notin> set (fst (getAllMarkers alice exampleWorld))
   \<and> loadMarker exampleWorld markerNew \<in> set (fst (getAllMarkers alice exampleWorld))"
proof -
  have u: "users exampleWorld (user_id alice) = Some alice"
    by (simp add: example_defs)
  have c: "user_createdAt alice = Some 100000"
    by (simp add: alice_def)
  have old: "markerOld \<in> set (markers exampleWorld)"
     "blogs exampleWorld (blogId markerOld) = Some blogOld \<and> blog_createdAt blogOld = 100000 - 2000"
    by (simp_all add: example_defs)
  have new: "markerNew \<in> set (markers exampleWorld)"
     "blogs exampleWorld (blogId markerNew) = Some blogNew \<and> blog_createdAt blogNew = 100000 + 1"
    by (simp_all add: example_defs)
  have v: "map markerVersion (fst (getAllMarkers alice exampleWorld)) = [3, 2]"
    by (simp add: example_defs getAllMarkers_def query_defs)
  from getAllMarkers_registration_horizon [OF u c, of None] old new u c v show ?thesis
    by blast
qed

section \<open>The read cursor\<close>

lemma markAsSeen_stored:
  "userStates (snd (markAsSeen u v w)) =
     (userStates w)(user_id u \<mapsto> (case userStates w (user_id u) of None \<Rightarrow> v | Some c \<Rightarrow> max c v))"
  by (simp add: markAsSeen_def Let_def split: option.splits)

lemma markAsSeen_returned:
  "lastSeenMarkerVersion (fst (markAsSeen u v w)) =
     (case userStates w (user_id u) of None \<Rightarrow> v | Some c \<Rightarrow> max c v)"
  by (simp add: markAsSeen_def Let_def split: option.splits)

lemma markAsSeen_frame:
  "users (snd (markAsSeen u v w)) = users w"
  "blogs (snd (markAsSeen u v w)) = blogs w"
  "markers (snd (markAsSeen u v w)) = markers w"
  by (simp_all add: markAsSeen_def Let_def)

lemma loadMarker_userStates:
  "loadMarker (w\<lparr>userStates := x\<rparr>) = loadMarker w"
  by (simp add: fun_eq_iff loadMarker_def loadBlog_def cong: option.case_cong)

lemma loadMarker_markAsSeen:
  "loadMarker (snd (markAsSeen u v w)) = loadMarker w"
  by (simp add: markAsSeen_def Let_def loadMarker_userStates)

lemma getUserState_cursor:
  "lastSeenMarkerVersion (fst (getUserState u w)) =
     (case userStates w (user_id u) of None \<Rightarrow> 0 | Some c \<Rightarrow> c)"
  by (simp add: getUserState_def split: option.splits)

text \<open>
  C3, as the code has it. With a cursor row holding \<open>c\<close>, \<open>markAsSeen\<close> stores \<open>max c v\<close>;
  with no row it stores \<open>v\<close> itself, which is \<open>max 0 v\<close> for \<open>v \<ge> 0\<close>. After two calls the
  stored value is \<open>max v1 v2\<close> when there was no row and \<open>max c (max v1 v2)\<close> when the row
  held \<open>c\<close>, in either order of the calls. The mutation returns the stored cursor with
  the count recomputed on the state the update left.
\<close>

theorem markAsSeen_never_regresses:
  "(\<forall>c. userStates w (user_id u) = Some c \<longrightarrow>
        userStates (snd (markAsSeen u v w)) (user_id u) = Some (max c v))
   \<and> (userStates w (user_id u) = None \<longrightarrow>
        userStates (snd (markAsSeen u v w)) (user_id u) = Some v
        \<and> (0 \<le> v \<longrightarrow> userStates (snd (markAsSeen u v w)) (user_id u) = Some (max 0 v)))
   \<and> userStates (snd (markAsSeen u v2 (snd (markAsSeen u v1 w)))) (user_id u) =
       (case userStates w (user_id u) of
          None \<Rightarrow> Some (max v1 v2)
        | Some c \<Rightarrow> Some (max c (max v1 v2)))
   \<and> userStates (snd (markAsSeen u v2 (snd (markAsSeen u v1 w)))) (user_id u) =
       userStates (snd (markAsSeen u v1 (snd (markAsSeen u v2 w)))) (user_id u)
   \<and> userStates (snd (updateLastSeenMarkerVersion v u w)) (user_id u) =
       Some (r_lastSeenMarkerVersion (fst (updateLastSeenMarkerVersion v u w)))
   \<and> r_count (fst (updateLastSeenMarkerVersion v u w)) =
       fst (getUnreadCount u (snd (markAsSeen u v w)))"
proof -
  have a: "\<forall>c. userStates w (user_id u) = Some c \<longrightarrow>
        userStates (snd (markAsSeen u v w)) (user_id u) = Some (max c v)"
    by (simp add: markAsSeen_stored)
  have b: "userStates w (user_id u) = None \<longrightarrow>
        userStates (snd (markAsSeen u v w)) (user_id u) = Some v
        \<and> (0 \<le> v \<longrightarrow> userStates (snd (markAsSeen u v w)) (user_id u) = Some (max 0 v))"
    by (simp add: markAsSeen_stored)
  have c: "userStates (snd (markAsSeen u v2 (snd (markAsSeen u v1 w)))) (user_id u) =
       (case userStates w (user_id u) of
          None \<Rightarrow> Some (max v1 v2)
        | Some c \<Rightarrow> Some (max c (max v1 v2)))" for v1 v2
    by (simp add: markAsSeen_stored max.assoc split: option.splits)
  have d: "userStates (snd (markAsSeen u v2 (snd (markAsSeen u v1 w)))) (user_id u) =
       userStates (snd (markAsSeen u v1 (snd (markAsSeen u v2 w)))) (user_id u)"
    unfolding c by (simp add: max.commute split: option.splits)
  have e: "userStates (snd (updateLastSeenMarkerVersion v u w)) (user_id u) =
       Some (r_lastSeenMarkerVersion (fst (updateLastSeenMarkerVersion v u w)))"
    by (simp add: updateLastSeenMarkerVersion_def getUnreadCount_def markAsSeen_def Let_def
          split: option.splits prod.splits)
  have f: "r_count (fst (updateLastSeenMarkerVersion v u w)) =
       fst (getUnreadCount u (snd (markAsSeen u v w)))"
    by (simp add: updateLastSeenMarkerVersion_def split: prod.splits)
  from a b c d e f show ?thesis by blast
qed

theorem markAsSeen_never_regresses_witness:
  "userStates seenWorld (user_id alice) = Some 2
   \<and> userStates (snd (markAsSeen alice 1 seenWorld)) (user_id alice) = Some 2
   \<and> userStates exampleWorld (user_id alice) = None
   \<and> userStates (snd (markAsSeen alice 3 exampleWorld)) (user_id alice) = Some 3
   \<and> userStates (snd (markAsSeen alice 1 (snd (markAsSeen alice 3 exampleWorld)))) (user_id alice) = Some 3"
proof -
  have s: "userStates seenWorld (user_id alice) = Some 2"
    by (simp add: example_defs)
  have n: "userStates exampleWorld (user_id alice) = None"
    by (simp add: example_defs)
  from markAsSeen_never_regresses [of seenWorld alice 1 0 0] s
  have a: "userStates (snd (markAsSeen alice 1 seenWorld)) (user_id alice) = Some (max 2 1)"
    by blast
  from markAsSeen_never_regresses [of exampleWorld alice 3 1 3] n
  have b: "userStates (snd (markAsSeen alice 3 exampleWorld)) (user_id alice) = Some 3"
    and c: "userStates (snd (markAsSeen alice 1 (snd (markAsSeen alice 3 exampleWorld)))) (user_id alice)
              = (case userStates exampleWorld (user_id alice) of
                   None \<Rightarrow> Some (max 3 1) | Some c \<Rightarrow> Some (max c (max 3 1)))"
    by blast+
  from c n have c': "userStates (snd (markAsSeen alice 1 (snd (markAsSeen alice 3 exampleWorld)))) (user_id alice) = Some 3"
    by simp
  from a b c' s n show ?thesis
    by simp
qed

text \<open>
  C3 as stated fails twice. With no cursor row, \<open>markAsSeen\<close> with \<open>-1\<close> stores \<open>-1\<close>, not
  \<open>max 0 (-1)\<close>; and with the cursor at 2, the calls with 0 and 1 leave 2, not \<open>max 0 1\<close>.
\<close>

theorem markAsSeen_max_counterexample:
  "userStates exampleWorld (user_id alice) = None
   \<and> userStates (snd (markAsSeen alice (- 1) exampleWorld)) (user_id alice) \<noteq> Some (max 0 (- 1))
   \<and> userStates (snd (markAsSeen alice 1 (snd (markAsSeen alice 0 seenWorld)))) (user_id alice)
       \<noteq> Some (max 0 1)"
  by (simp add: markAsSeen_stored example_defs)

section \<open>Unread count\<close>

lemma unreadVisibleCount_length:
  assumes "distinct (map markerVersion (markers w))"
  shows "unreadVisibleCount w v t =
           length (filter (\<lambda>m. v < markerVersion m \<and> blogCreatedAfter (t - 1000) m)
                     (map (loadMarker w) (markers w)))"
proof -
  have "map markerVersion (map (loadMarker w) (markers w)) = map markerVersion (markers w)"
    by (simp add: loadMarker_def comp_def)
  with assms have "distinct (map markerVersion (map (loadMarker w) (markers w)))"
    by (simp only:)
  then have d: "distinct (map (loadMarker w) (markers w))"
    by (simp only: distinct_map)
  let ?P = "\<lambda>m. v < markerVersion m \<and> blogCreatedAfter (t - 1000) m"
  let ?xs = "map (loadMarker w) (markers w)"
  have "{m \<in> set ?xs. ?P m} = {m. ?P m} \<inter> set ?xs"
    by blast
  then have "unreadVisibleCount w v t = card ({m. ?P m} \<inter> set ?xs)"
    by (simp only: unreadVisibleCount_def)
  also have "\<dots> = length (filter ?P ?xs)"
    by (rule distinct_length_filter [OF d, symmetric])
  finally show ?thesis .
qed

lemma getUnreadCount_value:
  assumes "users w (user_id u) = Some fu" and "user_createdAt fu = Some T"
  shows "fst (getUnreadCount u w) =
           length (filter (\<lambda>m. lastSeenMarkerVersion (fst (getUserState u w)) < markerVersion m
                               \<and> blogCreatedAfter (T - 1000) m)
                     (map (loadMarker w) (markers w)))"
  using assms
  by (simp add: getUnreadCount_def getUserState_def loadMarker_userStates Let_def
        split: option.splits)

text \<open>
  C4, as the code has it. For a user whose row is found with registration instant \<open>T\<close>
  (versions being unique), \<open>getUnreadCount\<close> is the number of markers above the stored
  cursor (0 when there is no row yet) whose blog was created after \<open>T - 1000\<close> ms. Right
  after \<open>markAsSeen u V\<close> the recomputed count is that number for the cursor the call
  stored: \<open>max c V\<close> when a row held \<open>c\<close>, and \<open>V\<close> when there was none; so it is the number
  of visible markers above \<open>V\<close> whenever no row held more than \<open>V\<close>.
\<close>

theorem getUnreadCount_consistency:
  assumes "users w (user_id u) = Some fu" and "user_createdAt fu = Some T"
    and "distinct (map markerVersion (markers w))"
  shows "fst (getUnreadCount u w) =
           unreadVisibleCount w (lastSeenMarkerVersion (fst (getUserState u w))) T
         \<and> r_count (fst (updateLastSeenMarkerVersion V u w)) =
             unreadVisibleCount w
               (case userStates w (user_id u) of None \<Rightarrow> V | Some c \<Rightarrow> max c V) T
         \<and> ((\<forall>c. userStates w (user_id u) = Some c \<longrightarrow> c \<le> V) \<longrightarrow>
              r_count (fst (updateLastSeenMarkerVersion V u w)) = unreadVisibleCount w V T)"
proof -
  let ?w' = "snd (markAsSeen u V w)"
  let ?c' = "case userStates w (user_id u) of None \<Rightarrow> V | Some c \<Rightarrow> max c V"
  have 1: "fst (getUnreadCount u w) =
           unreadVisibleCount w (lastSeenMarkerVersion (fst (getUserState u w))) T"
    using assms by (simp add: getUnreadCount_value unreadVisibleCount_length)
  have u': "users ?w' (user_id u) = Some fu" and d': "distinct (map markerVersion (markers ?w'))"
    using assms by (simp_all add: markAsSeen_frame)
  have cur: "lastSeenMarkerVersion (fst (getUserState u ?w')) = ?c'"
    by (simp add: getUserState_cursor markAsSeen_stored)
  have "r_count (fst (updateLastSeenMarkerVersion V u w)) = fst (getUnreadCount u ?w')"
    by (simp add: updateLastSeenMarkerVersion_def split: prod.splits)
  also have "\<dots> = length (filter (\<lambda>m. ?c' < markerVersion m \<and> blogCreatedAfter (T - 1000) m)
                     (map (loadMarker w) (markers w)))"
    using getUnreadCount_value [OF u' assms(2)]
    by (simp only: cur loadMarker_markAsSeen markAsSeen_frame)
  also have "\<dots> = unreadVisibleCount w ?c' T"
    using assms(3) by (simp add: unreadVisibleCount_length)
  finally have 2: "r_count (fst (updateLastSeenMarkerVersion V u w)) = unreadVisibleCount w ?c' T" .
  have 3: "(\<forall>c. userStates w (user_id u) = Some c \<longrightarrow> c \<le> V) \<longrightarrow>
              r_count (fst (updateLastSeenMarkerVersion V u w)) = unreadVisibleCount w V T"
    unfolding 2 by (auto split: option.splits simp: max_def)
  from 1 2 3 show ?thesis by blast
qed

lemma example_distinct:
  "distinct (map markerVersion (markers exampleWorld))"
  "distinct (map markerVersion (markers seenWorld))"
  by (simp_all add: example_defs)

lemma example_counts:
  "unreadVisibleCount seenWorld 1 100000 = 2"
  "unreadVisibleCount seenWorld 2 100000 = 1"
  "unreadVisibleCount exampleWorld 0 100000 = 2"
  by (simp_all add: unreadVisibleCount_length example_distinct)
     (simp_all add: example_defs query_defs)

theorem getUnreadCount_consistency_witness:
  "users seenWorld (user_id alice) = Some alice \<and> user_createdAt alice = Some 100000
   \<and> distinct (map markerVersion (markers seenWorld))
   \<and> fst (getUnreadCount alice seenWorld) = 1
   \<and> userStates seenWorld (user_id alice) = Some 2
   \<and> r_count (fst (updateLastSeenMarkerVersion 3 alice seenWorld)) = unreadVisibleCount seenWorld 3 100000"
proof -
  have u: "users seenWorld (user_id alice) = Some alice"
    by (simp add: example_defs)
  have c: "user_createdAt alice = Some 100000"
    by (simp add: alice_def)
  have s: "userStates seenWorld (user_id alice) = Some 2"
    by (simp add: example_defs)
  have g: "lastSeenMarkerVersion (fst (getUserState alice seenWorld)) = 2"
    by (simp add: getUserState_cursor s)
  show ?thesis
    using getUnreadCount_consistency [OF u c example_distinct(2), of 3] u c s g
      example_distinct(2) example_counts(2)
    by simp
qed

text \<open>
  C4 as stated fails for a stale version: with the cursor at 2 and the visible markers 2
  and 3, the count returned by marking version 1 as seen is 1 (the markers above 2), while
  the markers above 1 that pass the horizon filter are 2.
\<close>

theorem getUnreadCount_after_markSeen_counterexample:
  "r_count (fst (updateLastSeenMarkerVersion 1 alice seenWorld)) = 1
   \<and> unreadVisibleCount seenWorld 1 100000 = 2"
proof -
  have "r_count (fst (updateLastSeenMarkerVersion 1 alice seenWorld)) = 1"
    by (simp add: updateLastSeenMarkerVersion_def markAsSeen_def getUnreadCount_def Let_def
          example_defs query_defs)
  then show ?thesis
    by (simp add: example_counts)
qed

section \<open>Unread markers against the unread count\<close>

lemma getUnreadMarkers_value:
  "fst (getUnreadMarkers u w) =
     sort_key markerVersion
       (filter (\<lambda>m. lastSeenMarkerVersion (fst (getUserState u w)) < markerVersion m)
          (map (loadMarker w) (markers w)))"
  by (simp add: getUnreadMarkers_def getUserState_def loadMarker_userStates
        split: option.splits)

lemma getUnreadCount_bound:
  "fst (getUnreadCount u w) \<le>
     length (filter (\<lambda>m. lastSeenMarkerVersion (fst (getUserState u w)) < markerVersion m)
               (map (loadMarker w) (markers w)))"
proof -
  have le: "length (filter (\<lambda>m. P m \<and> Q m) xs) \<le> length (filter P xs)" for P Q and xs :: "marker list"
    by (induction xs) auto
  show ?thesis
  proof (cases "users w (user_id u)")
    case None
    then have "fst (getUnreadCount u w) = 0"
      by (simp add: getUnreadCount_def Let_def split: option.splits)
    then show ?thesis by simp
  next
    case (Some fu)
    show ?thesis
    proof (cases "user_createdAt fu")
      case None
      with Some have "fst (getUnreadCount u w) = 0"
        by (simp add: getUnreadCount_def Let_def split: option.splits)
      then show ?thesis by simp
    next
      case (Some T)
      show ?thesis
        unfolding getUnreadCount_value [OF \<open>users w (user_id u) = Some fu\<close> Some]
        by (rule le)
    qed
  qed
qed

lemma getUnreadCount_filters_unread:
  assumes "users w (user_id u) = Some fu" and "user_createdAt fu = Some T"
  shows "fst (getUnreadCount u w) =
           length (filter (blogCreatedAfter (T - 1000)) (fst (getUnreadMarkers u w)))"
proof -
  let ?c = "lastSeenMarkerVersion (fst (getUserState u w))"
  let ?xs = "map (loadMarker w) (markers w)"
  have "filter (blogCreatedAfter (T - 1000)) (fst (getUnreadMarkers u w)) =
      sort_key markerVersion
        (filter (blogCreatedAfter (T - 1000)) (filter (\<lambda>m. ?c < markerVersion m) ?xs))"
    unfolding getUnreadMarkers_value by (rule filter_sort)
  then have "length (filter (blogCreatedAfter (T - 1000)) (fst (getUnreadMarkers u w))) =
      length (filter (\<lambda>m. ?c < markerVersion m \<and> blogCreatedAfter (T - 1000) m) ?xs)"
    by (simp only: length_sort filter_filter)
  then show ?thesis
    by (simp only: getUnreadCount_value [OF assms])
qed

lemma getUnreadCount_no_user:
  assumes "users w (user_id u) = None
           \<or> (\<exists>fu. users w (user_id u) = Some fu \<and> user_createdAt fu = None)"
  shows "fst (getUnreadCount u w) = 0"
  using assms by (auto simp add: getUnreadCount_def Let_def split: option.splits)

text \<open>
  C9. \<open>getUnreadMarkers\<close> returns exactly the joined markers above the stored cursor, in
  ascending order of version, with no test on the blog's creation instant. For a user
  whose row is found with registration instant \<open>T\<close>, \<open>getUnreadCount\<close> is the number of
  those same markers that also pass the horizon filter (blog created after \<open>T - 1000\<close> ms),
  and it is 0 when the row is not found; so the unread count never exceeds the number of
  unread markers. In the example alice, registered at 100000, is handed the marker of a
  blog created at 98000, and her count is 2 while 3 markers are returned.
\<close>

theorem getUnreadCount_le_getUnreadMarkers:
  "fst (getUnreadCount u w) \<le> length (fst (getUnreadMarkers u w))
   \<and> mset (fst (getUnreadMarkers u w)) =
       filter_mset (\<lambda>m. lastSeenMarkerVersion (fst (getUserState u w)) < markerVersion m)
         (mset (map (loadMarker w) (markers w)))
   \<and> sorted (map markerVersion (fst (getUnreadMarkers u w)))
   \<and> (\<forall>fu T. users w (user_id u) = Some fu \<and> user_createdAt fu = Some T \<longrightarrow>
         fst (getUnreadCount u w) =
           length (filter (blogCreatedAfter (T - 1000)) (fst (getUnreadMarkers u w))))
   \<and> (users w (user_id u) = None
        \<or> (\<exists>fu. users w (user_id u) = Some fu \<and> user_createdAt fu = None)
       \<longrightarrow> fst (getUnreadCount u w) = 0)
   \<and> fst (getUnreadCount alice exampleWorld) < length (fst (getUnreadMarkers alice exampleWorld))
   \<and> fst (getUnreadCount alice exampleWorld) = 2
   \<and> length (fst (getUnreadMarkers alice exampleWorld)) = 3
   \<and> loadMarker exampleWorld markerOld \<in> set (fst (getUnreadMarkers alice exampleWorld))
   \<and> \<not> blogCreatedAfter (100000 - 1000) (loadMarker exampleWorld markerOld)"
proof -
  have 1: "fst (getUnreadCount u w) \<le> length (fst (getUnreadMarkers u w))"
    using getUnreadCount_bound [of u w] by (simp add: getUnreadMarkers_value)
  have 2: "mset (fst (getUnreadMarkers u w)) =
       filter_mset (\<lambda>m. lastSeenMarkerVersion (fst (getUserState u w)) < markerVersion m)
         (mset (map (loadMarker w) (markers w)))"
    by (simp add: getUnreadMarkers_value)
  have 3: "sorted (map markerVersion (fst (getUnreadMarkers u w)))"
    by (simp add: getUnreadMarkers_value)
  have 4: "\<forall>fu T. users w (user_id u) = Some fu \<and> user_createdAt fu = Some T \<longrightarrow>
         fst (getUnreadCount u w) =
           length (filter (blogCreatedAfter (T - 1000)) (fst (getUnreadMarkers u w)))"
    using getUnreadCount_filters_unread by blast
  have 5: "users w (user_id u) = None
        \<or> (\<exists>fu. users w (user_id u) = Some fu \<and> user_createdAt fu = None)
       \<longrightarrow> fst (getUnreadCount u w) = 0"
    using getUnreadCount_no_user by blast
  have 7: "fst (getUnreadCount alice exampleWorld) = 2"
    by (simp add: getUnreadCount_def example_defs query_defs)
  have 8: "length (fst (getUnreadMarkers alice exampleWorld)) = 3"
    by (simp add: getUnreadMarkers_def example_defs query_defs)
  from 7 8 have 6: "fst (getUnreadCount alice exampleWorld)
      < length (fst (getUnreadMarkers alice exampleWorld))"
    by simp
  have 9: "loadMarker exampleWorld markerOld \<in> set (fst (getUnreadMarkers alice exampleWorld))"
    by (simp add: getUnreadMarkers_def example_defs query_defs)
  have 10: "\<not> blogCreatedAfter (100000 - 1000) (loadMarker exampleWorld markerOld)"
    by (simp add: example_defs query_defs)
  from 1 2 3 4 5 6 7 8 9 10 show ?thesis by blast
qed

theorem getUnreadCount_le_getUnreadMarkers_witness:
  "users seenWorld (user_id alice) = Some alice \<and> user_createdAt alice = Some 100000
   \<and> fst (getUnreadCount alice seenWorld) =
       length (filter (blogCreatedAfter (100000 - 1000)) (fst (getUnreadMarkers alice seenWorld)))
   \<and> fst (getUnreadCount alice seenWorld) = 1
   \<and> fst (getUnreadCount alice seenWorld) \<le> length (fst (getUnreadMarkers alice seenWorld))
   \<and> map markerVersion (fst (getUnreadMarkers alice seenWorld)) = [3]
   \<and> users exampleWorld (user_id (alice\<lparr>user_id := ''nobody''\<rparr>)) = None
   \<and> fst (getUnreadCount (alice\<lparr>user_id := ''nobody''\<rparr>) exampleWorld) = 0"
proof -
  have u: "users seenWorld (user_id alice) = Some alice"
    and c: "user_createdAt alice = Some 100000"
    and n: "users exampleWorld (user_id (alice\<lparr>user_id := ''nobody''\<rparr>)) = None"
    by (simp_all add: example_defs)
  have m: "map markerVersion (fst (getUnreadMarkers alice seenWorld)) = [3]"
    by (simp add: getUnreadMarkers_def example_defs query_defs)
  have f: "length (filter (blogCreatedAfter (100000 - 1000))
                     (fst (getUnreadMarkers alice seenWorld))) = 1"
    by (simp add: getUnreadMarkers_def example_defs query_defs)
  from getUnreadCount_le_getUnreadMarkers [of alice seenWorld] u c
  have a: "fst (getUnreadCount alice seenWorld) =
       length (filter (blogCreatedAfter (100000 - 1000)) (fst (getUnreadMarkers alice seenWorld)))"
    and b: "fst (getUnreadCount alice seenWorld) \<le> length (fst (getUnreadMarkers alice seenWorld))"
    by blast+
  from getUnreadCount_le_getUnreadMarkers [of "alice\<lparr>user_id := ''nobody''\<rparr>" exampleWorld] n
  have z: "fst (getUnreadCount (alice\<lparr>user_id := ''nobody''\<rparr>) exampleWorld) = 0"
    by blast
  from a f have k: "fst (getUnreadCount alice seenWorld) = 1"
    by simp
  from u c n m a b z k show ?thesis by blast
qed

section \<open>Validation at the publish boundary\<close>

lemma getProp_defined_obj:
  "getProp p k \<noteq> JUndefined \<Longrightarrow> \<exists>kvs. p = JObj kvs"
  by (cases p) simp_all

lemma getProp_falsy:
  "\<not> truthy p \<Longrightarrow> getProp p k = JUndefined"
  by (cases p) simp_all

lemma positiveNumber_iff:
  "positiveNumber v = (\<not> (case v of JNum n \<Rightarrow> n \<le> 0 | _ \<Rightarrow> True))"
  by (cases v) (auto simp add: positiveNumber_def)

lemma isObject_iff:
  "isObject v = (truthy v \<and> typeof v = TObject)"
  by (cases v) (simp_all add: isObject_def)

lemma validMarkerPayload_truthy:
  "validMarkerPayload p \<Longrightarrow> truthy p"
  by (cases p) (simp_all add: validMarkerPayload_def positiveNumber_def)

lemma safePublishMarker_invalid:
  assumes "\<not> validMarkerPayload p"
  shows "\<exists>msg. safePublishMarker e p w = (Inl (Error msg), w)"
proof (cases "truthy p")
  case False
  then show ?thesis by (simp add: safePublishMarker_def)
next
  case True
  with assms show ?thesis
    by (auto simp add: safePublishMarker_def validMarkerPayload_def positiveNumber_iff
          isObject_iff js_or_def Let_def)
qed

lemma safePublishMarker_valid:
  assumes "validMarkerPayload p"
  shows "safePublishMarker e p w =
           (if env_pubsubOk e then (Inr (), pubSub_publish e p w)
            else (Inl PubSubError,
                  w\<lparr>errorLog := errorLog w @ [''Error publishing to local PubSub:'']\<rparr>))"
  using assms validMarkerPayload_truthy [OF assms]
  by (auto simp add: safePublishMarker_def validMarkerPayload_def positiveNumber_iff
        isObject_iff js_or_def Let_def)

lemma publishMarker_invalid:
  assumes "\<not> validMarkerPayload p"
  shows "\<exists>msg. publishMarker e p w = (Inl (Error msg), w)"
  using safePublishMarker_invalid [OF assms, of e w]
  by (auto simp add: publishMarker_def)

lemmas payload_defs =
  missingBlogPayload_def secondPayload_def markerPayload_def author_js_def user_js_def
  markerNew_def blogNew_def bob_def js_or_def

lemma missingBlogPayload_invalid: "\<not> validMarkerPayload missingBlogPayload"
  by (simp add: validMarkerPayload_def missingBlogPayload_def isObject_def)

lemma secondPayload_valid: "validMarkerPayload secondPayload"
  by (simp add: validMarkerPayload_def payload_defs isObject_def positiveNumber_def)

section \<open>Cursor filter of the subscription\<close>

lemma safeResolvePayload_resolvable:
  "safeResolvePayload e q =
     (if resolvablePayload q
      then (case (getProp q ''markerVersion'', getProp q ''createdAt'') of
              (JNum n, JDate t) \<Rightarrow>
                \<lparr>p_markerVersion = n, p_blog = getProp q ''blog'', p_createdAt = t,
                 p_cursor = Some n\<rparr>
            | _ \<Rightarrow> createDefaultPayload e)
      else createDefaultPayload e)"
  by (cases "getProp q ''markerVersion''")
     (auto simp add: safeResolvePayload_def resolvablePayload_def isObject_iff
        positiveNumber_def Let_def)

lemma subscription_resolve_invalid:
  "\<not> resolvablePayload (actualPayload p) \<Longrightarrow> subscription_resolve e p = createDefaultPayload e"
  by (simp add: subscription_resolve_def safeResolvePayload_resolvable createDefaultPayload_def)

lemma subscription_resolve_valid:
  assumes "validMarkerPayload p" and "getProp p ''newNotificationMarker'' = JUndefined"
    and "getProp p ''markerVersion'' = JNum v" and "getProp p ''createdAt'' = JDate t"
  shows "subscription_resolve e p =
           \<lparr>p_markerVersion = v, p_blog = getProp p ''blog'', p_createdAt = t, p_cursor = Some v\<rparr>"
proof -
  from assms(1) have "truthy p" by (rule validMarkerPayload_truthy)
  moreover from assms(3) obtain kvs where "p = JObj kvs"
    using getProp_defined_obj [of p "''markerVersion''"] by auto
  ultimately have "resolvablePayload p"
    using assms(1) by (simp add: resolvablePayload_def validMarkerPayload_def isObject_def)
  moreover from assms(1,3) have "0 < v"
    by (simp add: validMarkerPayload_def positiveNumber_def)
  ultimately show ?thesis
    using assms(2,3,4)
    by (simp add: subscription_resolve_def actualPayload_def safeResolvePayload_resolvable)
qed

text \<open>
  C8. When \<open>safePublishMarker\<close> accepts a marker payload (one that is not wrapped in a
  \<open>newNotificationMarker\<close> field), its version \<open>v\<close> is a number and every current listener
  is treated alike: a listener with cursor \<open>c\<close> receives the marker exactly when \<open>c < v\<close>,
  and a listener without a cursor receives it always.
\<close>

theorem listener_receives_above_cursor:
  assumes "fst (safePublishMarker e p w) = Inr ()"
    and "getProp p ''newNotificationMarker'' = JUndefined"
  shows "\<exists>v t. getProp p ''markerVersion'' = JNum v \<and> getProp p ''createdAt'' = JDate t
           \<and> listeners (snd (safePublishMarker e p w)) =
               map (\<lambda>l. if (case l_cursor l of None \<Rightarrow> True | Some c \<Rightarrow> c < v)
                         then l\<lparr>l_received := l_received l @
                                  [\<lparr>p_markerVersion = v, p_blog = getProp p ''blog'',
                                    p_createdAt = t, p_cursor = Some v\<rparr>]\<rparr>
                         else l)
                 (listeners w)"
proof -
  have valid: "validMarkerPayload p"
    using assms(1) safePublishMarker_invalid [of p e w] by (cases "validMarkerPayload p") auto
  then obtain v where v: "getProp p ''markerVersion'' = JNum v"
    by (cases "getProp p ''markerVersion''") (simp_all add: validMarkerPayload_def positiveNumber_def)
  from valid obtain t where t: "getProp p ''createdAt'' = JDate t"
    by (cases "getProp p ''createdAt''") (simp_all add: validMarkerPayload_def)
  have ok: "env_pubsubOk e"
    using assms(1) by (simp add: safePublishMarker_valid [OF valid] split: if_splits)
  have res: "subscription_resolve e p =
       \<lparr>p_markerVersion = v, p_blog = getProp p ''blog'', p_createdAt = t, p_cursor = Some v\<rparr>"
    by (rule subscription_resolve_valid [OF valid assms(2) v t])
  have filt: "subscription_filter p (l_cursor l) =
       (case l_cursor l of None \<Rightarrow> True | Some c \<Rightarrow> c < v)" for l
    using assms(2) v by (simp add: subscription_filter_def actualPayload_def split: option.splits)
  have "listeners (snd (safePublishMarker e p w)) = map (deliver e p) (listeners w)"
    by (simp add: safePublishMarker_valid [OF valid] ok pubSub_publish_def)
  also have "deliver e p = (\<lambda>l. if (case l_cursor l of None \<Rightarrow> True | Some c \<Rightarrow> c < v)
                         then l\<lparr>l_received := l_received l @
                                  [\<lparr>p_markerVersion = v, p_blog = getProp p ''blog'',
                                    p_createdAt = t, p_cursor = Some v\<rparr>]\<rparr>
                         else l)"
    by (simp add: fun_eq_iff deliver_def filt res)
  finally show ?thesis using v t by blast
qed

theorem listener_receives_above_cursor_witness:
  "fst (safePublishMarker upEnv secondPayload listeningWorld) = Inr ()
   \<and> getProp secondPayload ''newNotificationMarker'' = JUndefined
   \<and> getProp secondPayload ''markerVersion'' = JNum 2
   \<and> map (\<lambda>l. map p_markerVersion (l_received l))
        (listeners (snd (safePublishMarker upEnv secondPayload listeningWorld))) = [[2], []]"
proof -
  have a: "fst (safePublishMarker upEnv secondPayload listeningWorld) = Inr ()"
    by (simp add: safePublishMarker_valid [OF secondPayload_valid] upEnv_def)
  have b: "getProp secondPayload ''newNotificationMarker'' = JUndefined"
    and c: "getProp secondPayload ''markerVersion'' = JNum 2"
    by (simp_all add: payload_defs)
  from listener_receives_above_cursor [OF a b] c
  have "\<exists>t. listeners (snd (safePublishMarker upEnv secondPayload listeningWorld)) =
               map (\<lambda>l. if (case l_cursor l of None \<Rightarrow> True | Some c \<Rightarrow> c < 2)
                         then l\<lparr>l_received := l_received l @
                                  [\<lparr>p_markerVersion = 2, p_blog = getProp secondPayload ''blog'',
                                    p_createdAt = t, p_cursor = Some 2\<rparr>]\<rparr>
                         else l)
                 (listeners listeningWorld)"
    by auto
  then have "map (\<lambda>l. map p_markerVersion (l_received l))
        (listeners (snd (safePublishMarker upEnv secondPayload listeningWorld))) = [[2], []]"
    by (auto simp add: listeningWorld_def plainListener_def cursorListener_def)
  with a b c show ?thesis by blast
qed

section \<open>Invalid payloads at the subscription\<close>

text \<open>
  C10, as the code has it. When the payload that reaches the subscription is not usable
  (not an object, or without a positive numeric version, a blog object or a Date), a
  listener without a cursor is sent the default payload (version 0, cursor 0, blog
  \<open>null\<close>). A listener with cursor \<open>c\<close> is spared exactly when the payload's version is
  not a number or not above \<open>c\<close>; when it is a number above \<open>c\<close> that listener is sent the
  default payload too.
\<close>

theorem invalid_payload_default_delivery:
  assumes "\<not> resolvablePayload (actualPayload p)"
  shows "(l_cursor l = None \<longrightarrow>
            deliver e p l = l\<lparr>l_received := l_received l @ [createDefaultPayload e]\<rparr>)
         \<and> (\<forall>c. l_cursor l = Some c \<longrightarrow>
              deliver e p l =
                (if (case getProp (actualPayload p) ''markerVersion'' of
                       JNum n \<Rightarrow> c < n | _ \<Rightarrow> False)
                 then l\<lparr>l_received := l_received l @ [createDefaultPayload e]\<rparr>
                 else l))
         \<and> createDefaultPayload e =
             \<lparr>p_markerVersion = 0, p_blog = JNull, p_createdAt = env_now e, p_cursor = Some 0\<rparr>"
  using assms
  by (simp add: deliver_def subscription_filter_def subscription_resolve_invalid
        createDefaultPayload_def)

theorem invalid_payload_default_delivery_witness:
  "\<not> resolvablePayload (actualPayload missingBlogPayload)
   \<and> l_cursor plainListener = None
   \<and> l_received (deliver upEnv missingBlogPayload plainListener) = [createDefaultPayload upEnv]
   \<and> l_cursor (cursorListener\<lparr>l_cursor := Some 5\<rparr>) = Some 5
   \<and> deliver upEnv missingBlogPayload (cursorListener\<lparr>l_cursor := Some 5\<rparr>)
       = cursorListener\<lparr>l_cursor := Some 5\<rparr>"
proof -
  have a: "\<not> resolvablePayload (actualPayload missingBlogPayload)"
    by (simp add: resolvablePayload_def actualPayload_def missingBlogPayload_def isObject_def)
  have v: "getProp (actualPayload missingBlogPayload) ''markerVersion'' = JNum 5"
    by (simp add: actualPayload_def missingBlogPayload_def)
  from invalid_payload_default_delivery [OF a, of plainListener upEnv]
  have b: "l_received (deliver upEnv missingBlogPayload plainListener) = [createDefaultPayload upEnv]"
    by (simp add: plainListener_def)
  from invalid_payload_default_delivery [OF a, of "cursorListener\<lparr>l_cursor := Some 5\<rparr>" upEnv] v
  have c: "deliver upEnv missingBlogPayload (cursorListener\<lparr>l_cursor := Some 5\<rparr>)
       = cursorListener\<lparr>l_cursor := Some 5\<rparr>"
    by simp
  from a b c show ?thesis by (simp add: plainListener_def)
qed

text \<open>
  C10 as stated fails: the payload with version 5, a Date and no blog is not usable, yet
  the listener that supplied cursor 3 is sent the default payload.
\<close>

theorem cursor_listener_not_shielded_counterexample:
  "\<not> resolvablePayload (actualPayload missingBlogPayload)
   \<and> l_cursor cursorListener = Some 3
   \<and> l_received (deliver upEnv missingBlogPayload cursorListener) = [createDefaultPayload upEnv]
   \<and> p_markerVersion (createDefaultPayload upEnv) = 0
   \<and> p_blog (createDefaultPayload upEnv) = JNull"
  by (simp add: resolvablePayload_def actualPayload_def missingBlogPayload_def isObject_def
        deliver_def subscription_filter_def subscription_resolve_def safeResolvePayload_def
        createDefaultPayload_def cursorListener_def Let_def)

section \<open>Blog creation and the enqueue\<close>

text \<open>
  C1, as the code has it. \<open>BlogService.create\<close> writes the blog row and awaits the
  enqueue with no handler of its own. When the enqueue succeeds it returns the blog, with
  the event at the head of the queue. When the enqueue fails, \<open>enqueueBlogCreatedEvent\<close>
  logs the failure and throws it again, and \<open>create\<close> passes it on to its caller: the
  result is the error although the blog row stays written.
\<close>

theorem create_passes_on_enqueue_failure:
  "(env_redisUp e \<longrightarrow>
      (\<exists>b. fst (BlogService_create e inp a w) = Inr b \<and> blog_id b = env_uuid e
            \<and> blogs (snd (BlogService_create e inp a w)) (env_uuid e) \<noteq> None
            \<and> queue (snd (BlogService_create e inp a w)) =
                \<lparr>ev_blogId = env_uuid e, ev_title = in_title inp, ev_authorId = user_id a,
                 ev_createdAt = env_now e\<rparr> # queue w))
   \<and> (\<not> env_redisUp e \<longrightarrow>
        fst (BlogService_create e inp a w) = Inl RedisError
        \<and> blogs (snd (BlogService_create e inp a w)) (env_uuid e) =
            Some \<lparr>blog_id = env_uuid e, blog_title = in_title inp, blog_content = in_content inp,
                  blog_createdAt = env_now e, blog_updatedAt = env_now e,
                  blog_authorId = user_id a, blog_author = None\<rparr>
        \<and> queue (snd (BlogService_create e inp a w)) = queue w
        \<and> errorLog (snd (BlogService_create e inp a w)) =
            errorLog w @ [''Error enqueueing blog created event:''])"
  by (simp add: BlogService_create_def enqueueBlogCreatedEvent_def loadBlog_def Let_def)

theorem create_passes_on_enqueue_failure_witness:
  "env_redisUp upEnv
   \<and> queue (snd (BlogService_create upEnv exampleInput bob exampleWorld)) =
       [\<lparr>ev_blogId = ''b9'', ev_title = ''Intro'', ev_authorId = ''u2'', ev_createdAt = 200000\<rparr>]
   \<and> \<not> env_redisUp downEnv
   \<and> queue (snd (BlogService_create downEnv exampleInput bob exampleWorld)) = []"
proof -
  have up: "env_redisUp upEnv" and down: "\<not> env_redisUp downEnv"
    by (simp_all add: upEnv_def downEnv_def)
  from create_passes_on_enqueue_failure [of upEnv exampleInput bob exampleWorld] up
  have a: "queue (snd (BlogService_create upEnv exampleInput bob exampleWorld)) =
       \<lparr>ev_blogId = env_uuid upEnv, ev_title = in_title exampleInput, ev_authorId = user_id bob,
        ev_createdAt = env_now upEnv\<rparr> # queue exampleWorld"
    by blast
  from create_passes_on_enqueue_failure [of downEnv exampleInput bob exampleWorld] down
  have b: "queue (snd (BlogService_create downEnv exampleInput bob exampleWorld)) = queue exampleWorld"
    by blast
  from a b up down show ?thesis
    by (simp add: upEnv_def exampleInput_def bob_def exampleWorld_def)
qed

text \<open>
  C1 as stated fails: with Redis down, \<open>create\<close> ends in the Redis error instead of
  returning the blog, and the blog row has been written.
\<close>

theorem create_enqueue_failure_counterexample:
  "fst (BlogService_create downEnv exampleInput bob exampleWorld) = Inl RedisError
   \<and> blogs (snd (BlogService_create downEnv exampleInput bob exampleWorld)) ''b9'' \<noteq> None"
  by (simp add: BlogService_create_def enqueueBlogCreatedEvent_def loadBlog_def Let_def
        downEnv_def upEnv_def)

section \<open>Frame of the publish step and of createMarker\<close>

lemma pubSub_publish_frame:
  "markers (pubSub_publish e p w) = markers w"
  "markerSeq (pubSub_publish e p w) = markerSeq w"
  "isProcessing (pubSub_publish e p w) = isProcessing w"
  "queue (pubSub_publish e p w) = queue w"
  "blogs (pubSub_publish e p w) = blogs w"
  "users (pubSub_publish e p w) = users w"
  by (simp_all add: pubSub_publish_def)

lemma safePublishMarker_frame:
  "markers (snd (safePublishMarker e p w)) = markers w"
  "markerSeq (snd (safePublishMarker e p w)) = markerSeq w"
  "isProcessing (snd (safePublishMarker e p w)) = isProcessing w"
  "queue (snd (safePublishMarker e p w)) = queue w"
  "blogs (snd (safePublishMarker e p w)) = blogs w"
  "users (snd (safePublishMarker e p w)) = users w"
  by (simp_all add: safePublishMarker_def Let_def pubSub_publish_frame)

lemma safePublishToRedis_frame:
  "markers (safePublishToRedis e p w) = markers w"
  "markerSeq (safePublishToRedis e p w) = markerSeq w"
  "isProcessing (safePublishToRedis e p w) = isProcessing w"
  "queue (safePublishToRedis e p w) = queue w"
  "blogs (safePublishToRedis e p w) = blogs w"
  "users (safePublishToRedis e p w) = users w"
  by (simp_all add: safePublishToRedis_def split: option.splits)

lemma publishMarker_frame:
  "markers (snd (publishMarker e p w)) = markers w"
  "markerSeq (snd (publishMarker e p w)) = markerSeq w"
  "isProcessing (snd (publishMarker e p w)) = isProcessing w"
  "queue (snd (publishMarker e p w)) = queue w"
  "blogs (snd (publishMarker e p w)) = blogs w"
  "users (snd (publishMarker e p w)) = users w"
  by (simp_all add: publishMarker_def safePublishMarker_frame safePublishToRedis_frame
        split: prod.splits sum.splits)
     (metis safePublishMarker_frame snd_conv)+

section \<open>Versions assigned by createMarker\<close>

lemma snd_publish_case:
  "snd (case x of (Inl err, w2) \<Rightarrow> (Inl err, w2) | (Inr u, w2) \<Rightarrow> (Inr r, w2)) = snd x"
  by (cases x) (auto split: sum.splits)

lemma fst_publish_case:
  "fst (case x of (Inl err, w2) \<Rightarrow> (Inl err, w2) | (Inr u, w2) \<Rightarrow> (Inr r, w2)) = Inr m
     \<Longrightarrow> r = m \<and> fst x = Inr ()"
  by (cases x) (auto split: sum.splits)

lemma snd_createMarker:
  "snd (createMarker e b w) = snd (saveMarker e b w)
   \<or> (\<exists>p. snd (createMarker e b w) = snd (publishMarker e p (snd (saveMarker e b w))))"
  by (auto simp add: createMarker_def Let_def snd_publish_case
        split: prod.splits option.splits)

lemma saveMarker_store:
  "markers (snd (saveMarker e b w)) =
     markers w @ [\<lparr>markerVersion = markerSeq w, blogId = blog_id b, marker_blog = None,
                   marker_createdAt = env_now e\<rparr>]"
  "markerSeq (snd (saveMarker e b w)) = markerSeq w + 1"
  "isProcessing (snd (saveMarker e b w)) = isProcessing w"
  "queue (snd (saveMarker e b w)) = queue w"
  "blogs (snd (saveMarker e b w)) = blogs w"
  "users (snd (saveMarker e b w)) = users w"
  by (simp_all add: saveMarker_def Let_def)

lemma createMarker_store:
  "markers (snd (createMarker e b w)) =
     markers w @ [\<lparr>markerVersion = markerSeq w, blogId = blog_id b, marker_blog = None,
                   marker_createdAt = env_now e\<rparr>]"
  "markerSeq (snd (createMarker e b w)) = markerSeq w + 1"
  "isProcessing (snd (createMarker e b w)) = isProcessing w"
  "queue (snd (createMarker e b w)) = queue w"
  "blogs (snd (createMarker e b w)) = blogs w"
  "users (snd (createMarker e b w)) = users w"
  using snd_createMarker [of e b w]
  by (auto simp add: publishMarker_frame saveMarker_store)

lemma findOneMarker_version:
  "findOneMarker w v = Some m \<Longrightarrow> markerVersion m = v"
  by (auto simp add: findOneMarker_def loadMarker_def find_Some_iff split: option.splits)

lemma createMarker_returns:
  assumes "fst (createMarker e b w) = Inr m"
  shows "markerVersion m = markerSeq w"
    and "\<exists>b'. marker_blog m = Some b' \<and> validMarkerPayload (markerPayload m b')"
proof -
  let ?w1 = "snd (saveMarker e b w)"
  from assms obtain mb b3 where
    found: "findOneMarker ?w1 (markerSeq w) = Some mb"
    and m: "m = mb\<lparr>marker_blog := Some b3\<rparr>"
    and pub: "fst (publishMarker e (markerPayload m b3) ?w1) = Inr ()"
    by (auto simp add: createMarker_def saveMarker_def Let_def
          split: prod.splits option.splits sum.splits dest!: fst_publish_case)
  from found m show "markerVersion m = markerSeq w"
    by (simp add: findOneMarker_version)
  have "validMarkerPayload (markerPayload m b3)"
    using pub publishMarker_invalid [of "markerPayload m b3" e ?w1]
    by (cases "validMarkerPayload (markerPayload m b3)") auto
  with m show "\<exists>b'. marker_blog m = Some b' \<and> validMarkerPayload (markerPayload m b')"
    by simp
qed

lemma createMarkers_seq:
  "markerSeq (snd (createMarkers cs w)) = markerSeq w + int (length cs)"
proof (induction cs arbitrary: w)
  case Nil
  then show ?case by simp
next
  case (Cons c cs)
  obtain e b where c: "c = (e, b)" by (cases c)
  have "snd (createMarkers (c # cs) w) = snd (createMarkers cs (snd (createMarker e b w)))"
    by (simp add: c split: prod.splits)
  then show ?case
    by (simp add: Cons.IH createMarker_store)
qed

lemma createMarkers_versions:
  "map markerVersion (markers (snd (createMarkers cs w))) =
     map markerVersion (markers w) @ [markerSeq w .. markerSeq w + int (length cs) - 1]"
proof (induction cs arbitrary: w)
  case Nil
  then show ?case by simp
next
  case (Cons c cs)
  obtain e b where c: "c = (e, b)" by (cases c)
  let ?w1 = "snd (createMarker e b w)"
  have "snd (createMarkers (c # cs) w) = snd (createMarkers cs ?w1)"
    by (simp add: c split: prod.splits)
  then have "map markerVersion (markers (snd (createMarkers (c # cs) w))) =
      map markerVersion (markers ?w1) @ [markerSeq ?w1 .. markerSeq ?w1 + int (length cs) - 1]"
    by (simp only: Cons.IH)
  also have "\<dots> = map markerVersion (markers w) @
      (markerSeq w # [markerSeq w + 1 .. markerSeq w + int (length cs)])"
    by (simp add: createMarker_store add.commute add.left_commute)
  also have "markerSeq w # [markerSeq w + 1 .. markerSeq w + int (length cs)] =
      [markerSeq w .. markerSeq w + int (length (c # cs)) - 1]"
    by (simp add: upto_rec1 [of "markerSeq w" "markerSeq w + int (length cs)"])
  finally show ?case .
qed

lemma createMarkers_returned:
  "sorted_wrt (<) (returnedVersions (fst (createMarkers cs w)))
   \<and> set (returnedVersions (fst (createMarkers cs w)))
       \<subseteq> {markerSeq w .. markerSeq w + int (length cs) - 1}"
proof (induction cs arbitrary: w)
  case Nil
  then show ?case by simp
next
  case (Cons c cs)
  obtain e b where c: "c = (e, b)" by (cases c)
  let ?w1 = "snd (createMarker e b w)"
  let ?r = "fst (createMarker e b w)"
  have run: "fst (createMarkers (c # cs) w) = ?r # fst (createMarkers cs ?w1)"
    by (simp add: c split: prod.splits)
  have seq: "markerSeq ?w1 = markerSeq w + 1"
    by (rule createMarker_store)
  from Cons.IH [of ?w1] have
    s: "sorted_wrt (<) (returnedVersions (fst (createMarkers cs ?w1)))"
    and b: "set (returnedVersions (fst (createMarkers cs ?w1)))
             \<subseteq> {markerSeq w + 1 .. markerSeq w + int (length cs)}"
    by (simp_all add: seq add.commute add.left_commute)
  show ?case
  proof (cases ?r)
    case (Inl err)
    with s b show ?thesis
      unfolding run by auto
  next
    case (Inr m)
    then have "markerVersion m = markerSeq w"
      by (simp add: createMarker_returns)
    with Inr s b show ?thesis
      unfolding run by auto
  qed
qed

lemma markerStoreOK_versions:
  "markerStoreOK w = (distinct (map markerVersion (markers w))
       \<and> (\<forall>v \<in> set (map markerVersion (markers w)). v < markerSeq w))"
  by (auto simp add: markerStoreOK_def list_all_iff)

text \<open>
  C2. Over a marker table whose versions are unique and below the counter, any run of
  \<open>createMarker\<close> calls (successful or not) leaves the versions unique; the versions
  returned by the successful calls are strictly increasing; every call, also one that
  throws after its insert, has consumed exactly one version and its row is in the table,
  so the table holds the old versions followed by the allocated ones without a gap; and
  the version a call returns is the counter value its insert was given, not a value the
  call computes.
\<close>

theorem createMarker_versions_strictly_increase:
  assumes "markerStoreOK w"
  shows "sorted_wrt (<) (returnedVersions (fst (createMarkers cs w)))
         \<and> distinct (returnedVersions (fst (createMarkers cs w)))
         \<and> distinct (map markerVersion (markers (snd (createMarkers cs w))))
         \<and> markerSeq (snd (createMarkers cs w)) = markerSeq w + int (length cs)
         \<and> map markerVersion (markers (snd (createMarkers cs w))) =
             map markerVersion (markers w)
               @ [markerSeq w .. markerSeq (snd (createMarkers cs w)) - 1]
         \<and> set (returnedVersions (fst (createMarkers cs w)))
             \<subseteq> set (map markerVersion (markers (snd (createMarkers cs w))))
         \<and> markerStoreOK (snd (createMarkers cs w))
         \<and> (\<forall>e b w0 m. fst (createMarker e b w0) = Inr m \<longrightarrow>
               markerVersion m = markerSeq w0
               \<and> markerVersion m \<in> set (map markerVersion (markers (snd (createMarker e b w0)))))"
proof -
  let ?rs = "returnedVersions (fst (createMarkers cs w))"
  let ?w' = "snd (createMarkers cs w)"
  have 1: "sorted_wrt (<) ?rs"
    and r: "set ?rs \<subseteq> {markerSeq w .. markerSeq w + int (length cs) - 1}"
    using createMarkers_returned [of cs w] by simp_all
  from 1 have 2: "distinct ?rs"
    by (simp add: strict_sorted_iff)
  have 4: "markerSeq ?w' = markerSeq w + int (length cs)"
    by (rule createMarkers_seq)
  have 5: "map markerVersion (markers ?w') =
             map markerVersion (markers w) @ [markerSeq w .. markerSeq ?w' - 1]"
    by (simp add: createMarkers_versions 4)
  from assms have old: "distinct (map markerVersion (markers w))"
    "\<forall>v \<in> set (map markerVersion (markers w)). v < markerSeq w"
    by (simp_all add: markerStoreOK_versions)
  have 3: "distinct (map markerVersion (markers ?w'))"
    unfolding 5 using old by (auto simp del: set_map)
  have 6: "set ?rs \<subseteq> set (map markerVersion (markers ?w'))"
    unfolding 5 using r by (auto simp add: 4 simp del: set_map)
  have 7: "markerStoreOK ?w'"
    unfolding markerStoreOK_versions using 3 old(2)
    by (auto simp add: 5 simp del: set_map) (auto simp add: 4)
  have 8: "\<forall>e b w0 m. fst (createMarker e b w0) = Inr m \<longrightarrow>
               markerVersion m = markerSeq w0
               \<and> markerVersion m \<in> set (map markerVersion (markers (snd (createMarker e b w0))))"
    by (auto simp add: createMarker_returns createMarker_store)
  from 1 2 3 4 5 6 7 8 show ?thesis by blast
qed

section \<open>The publish contract\<close>

text \<open>
  C6. A payload that fails any check of the contract (positive numeric version, blog
  object with a non-empty id, author identifier from \<open>blog.author.id\<close> or
  \<open>blog.authorId\<close>, Date \<open>createdAt\<close>) makes \<open>safePublishMarker\<close> throw an Error to its
  caller and changes nothing; the publish step of \<open>createMarker\<close> then throws the same
  way before the Redis call, so nothing reaches the listeners or the Redis channel
  unless the payload passed the checks, and \<open>createMarker\<close> returns a marker to the
  worker only when the payload it built passed them. A payload that passes them is
  published.
\<close>

theorem publish_validates_payload:
  "(\<not> validMarkerPayload p \<longrightarrow>
       (\<exists>msg. safePublishMarker e p w = (Inl (Error msg), w))
     \<and> (\<exists>msg. publishMarker e p w = (Inl (Error msg), w)))
   \<and> (validMarkerPayload p \<and> env_pubsubOk e \<longrightarrow>
        safePublishMarker e p w = (Inr (), pubSub_publish e p w)
        \<and> fst (publishMarker e p w) = Inr ())
   \<and> (redisChannel (snd (publishMarker e p w)) \<noteq> redisChannel w \<longrightarrow> validMarkerPayload p)
   \<and> (listeners (snd (publishMarker e p w)) \<noteq> listeners w \<longrightarrow> validMarkerPayload p)
   \<and> (\<forall>m. fst (createMarker e b w) = Inr m \<longrightarrow>
         (\<exists>b'. marker_blog m = Some b' \<and> validMarkerPayload (markerPayload m b')))"
proof -
  have 1: "\<not> validMarkerPayload p \<longrightarrow>
       (\<exists>msg. safePublishMarker e p w = (Inl (Error msg), w))
     \<and> (\<exists>msg. publishMarker e p w = (Inl (Error msg), w))"
    using safePublishMarker_invalid publishMarker_invalid by blast
  have 2: "validMarkerPayload p \<and> env_pubsubOk e \<longrightarrow>
        safePublishMarker e p w = (Inr (), pubSub_publish e p w)
        \<and> fst (publishMarker e p w) = Inr ()"
    by (simp add: safePublishMarker_valid publishMarker_def)
  have 3: "redisChannel (snd (publishMarker e p w)) \<noteq> redisChannel w \<longrightarrow> validMarkerPayload p"
    using publishMarker_invalid [of p e w] by (cases "validMarkerPayload p") auto
  have 4: "listeners (snd (publishMarker e p w)) \<noteq> listeners w \<longrightarrow> validMarkerPayload p"
    using publishMarker_invalid [of p e w] by (cases "validMarkerPayload p") auto
  have 5: "\<forall>m. fst (createMarker e b w) = Inr m \<longrightarrow>
         (\<exists>b'. marker_blog m = Some b' \<and> validMarkerPayload (markerPayload m b'))"
    using createMarker_returns(2) by blast
  from 1 2 3 4 5 show ?thesis by blast
qed

theorem publish_validates_payload_witness:
  "\<not> validMarkerPayload missingBlogPayload
   \<and> publishMarker upEnv missingBlogPayload listeningWorld =
       (Inl (Error ''Invalid blog: must be a valid Blog object''), listeningWorld)
   \<and> validMarkerPayload secondPayload \<and> env_pubsubOk upEnv
   \<and> fst (publishMarker upEnv secondPayload listeningWorld) = Inr ()"
proof -
  have ok: "env_pubsubOk upEnv" by (simp add: upEnv_def)
  have "\<exists>msg. publishMarker upEnv missingBlogPayload listeningWorld = (Inl (Error msg), listeningWorld)"
    using publish_validates_payload [of missingBlogPayload upEnv listeningWorld blogNew]
      missingBlogPayload_invalid by blast
  moreover have "fst (publishMarker upEnv missingBlogPayload listeningWorld) =
       Inl (Error ''Invalid blog: must be a valid Blog object'')"
    by (simp add: publishMarker_def safePublishMarker_def missingBlogPayload_def)
  ultimately have a: "publishMarker upEnv missingBlogPayload listeningWorld =
       (Inl (Error ''Invalid blog: must be a valid Blog object''), listeningWorld)"
    by auto
  have b: "fst (publishMarker upEnv secondPayload listeningWorld) = Inr ()"
    using publish_validates_payload [of secondPayload upEnv listeningWorld blogNew] secondPayload_valid ok
    by blast
  from a b ok missingBlogPayload_invalid secondPayload_valid show ?thesis by blast
qed

section \<open>Runs of createMarker on the example data\<close>

lemma find_append_none:
  "list_all (\<lambda>x. \<not> P x) xs \<Longrightarrow> find P (xs @ ys) = find P ys"
  by (induction xs) auto

lemma createMarker_publishes:
  assumes "blogs w (blog_id b) = Some bl" and "users w (blog_authorId bl) = Some a"
    and "blog_id bl \<noteq> []" and "blog_authorId bl \<noteq> []" and "0 < markerSeq w"
    and "markerStoreOK w"
  shows "fst (createMarker e b w) =
           (if env_pubsubOk e
            then Inr \<lparr>markerVersion = markerSeq w, blogId = blog_id b,
                      marker_blog = Some (bl\<lparr>blog_author := Some a\<rparr>),
                      marker_createdAt = env_now e\<rparr>
            else Inl PubSubError)"
proof -
  let ?row = "\<lparr>markerVersion = markerSeq w, blogId = blog_id b, marker_blog = None,
               marker_createdAt = env_now e\<rparr>"
  let ?w1 = "snd (saveMarker e b w)"
  let ?m = "\<lparr>markerVersion = markerSeq w, blogId = blog_id b,
             marker_blog = Some (bl\<lparr>blog_author := Some a\<rparr>), marker_createdAt = env_now e\<rparr>"
  from assms(6) have "list_all (\<lambda>m. \<not> markerVersion m = markerSeq w) (markers w)"
    by (auto simp add: markerStoreOK_def list_all_iff)
  then have "find (\<lambda>m. markerVersion m = markerSeq w) (markers w @ [?row]) = Some ?row"
    by (simp add: find_append_none)
  then have found: "findOneMarker ?w1 (markerSeq w) = Some ?m"
    using assms(1,2)
    by (simp add: findOneMarker_def saveMarker_def Let_def loadMarker_def loadBlog_def)
  have valid: "validMarkerPayload (markerPayload ?m (bl\<lparr>blog_author := Some a\<rparr>))"
    using assms(3,4,5)
    by (simp add: validMarkerPayload_def markerPayload_def positiveNumber_def isObject_def
          js_or_def author_js_def user_js_def)
  have pub: "fst (publishMarker e (markerPayload ?m (bl\<lparr>blog_author := Some a\<rparr>)) ?w1) =
      (if env_pubsubOk e then Inr () else Inl PubSubError)"
    by (simp add: publishMarker_def safePublishMarker_valid [OF valid])
  have "createMarker e b w =
      (case publishMarker e (markerPayload ?m (bl\<lparr>blog_author := Some a\<rparr>)) ?w1 of
         (Inl err, w2) \<Rightarrow> (Inl err, w2)
       | (Inr u, w2) \<Rightarrow> (Inr ?m, w2))"
    using found assms(4)
    by (simp add: createMarker_def Let_def split: prod.splits)
       (simp add: saveMarker_def Let_def)
  then show ?thesis
    using pub by (auto split: prod.splits sum.splits)
qed

lemma createMarker_keeps_store:
  assumes "markerStoreOK w"
  shows "markerStoreOK (snd (createMarker e b w))"
  using assms
  by (auto simp add: markerStoreOK_def createMarker_store list_all_iff)

lemma createMarkers_Cons:
  "createMarkers ((e, b) # cs) w =
     (fst (createMarker e b w) # fst (createMarkers cs (snd (createMarker e b w))),
      snd (createMarkers cs (snd (createMarker e b w))))"
  by (simp split: prod.splits)

lemma exampleWorld_ok: "markerStoreOK exampleWorld"
  by (simp add: markerStoreOK_def exampleWorld_def markerOld_def markerNew_def markerNewer_def)

theorem createMarker_versions_strictly_increase_witness:
  "markerStoreOK exampleWorld
   \<and> returnedVersions (fst (createMarkers exampleCalls exampleWorld)) = [4, 6]
   \<and> map markerVersion (markers (snd (createMarkers exampleCalls exampleWorld))) = [1, 2, 3, 4, 5, 6]"
proof -
  let ?w1 = "snd (createMarker upEnv blogOld exampleWorld)"
  let ?w2 = "snd (createMarker noPubSubEnv blogNew ?w1)"
  have f: "blogs ?w2 = blogs exampleWorld" "users ?w2 = users exampleWorld"
      "blogs ?w1 = blogs exampleWorld" "users ?w1 = users exampleWorld"
      "markerSeq ?w1 = 5" "markerSeq ?w2 = 6"
      "map markerVersion (markers ?w1) = [1, 2, 3, 4]"
      "map markerVersion (markers ?w2) = [1, 2, 3, 4, 5]"
    by (simp_all add: createMarker_store)
       (simp_all add: exampleWorld_def markerOld_def markerNew_def markerNewer_def)
  have l: "markerStoreOK ?w1" "markerStoreOK ?w2"
    by (simp_all add: createMarker_keeps_store exampleWorld_ok)
  have ex: "blogs exampleWorld ''b1'' = Some blogOld" "blogs exampleWorld ''b2'' = Some blogNew"
      "blogs exampleWorld ''b3'' = Some blogNewer" "users exampleWorld ''u2'' = Some bob"
      "markerSeq exampleWorld = 4"
    by (simp_all add: exampleWorld_def)
  have ids: "blog_id blogOld = ''b1''" "blog_id blogNew = ''b2''" "blog_id blogNewer = ''b3''"
      "blog_authorId blogOld = ''u2''" "blog_authorId blogNew = ''u2''"
      "blog_authorId blogNewer = ''u2''"
      "env_pubsubOk upEnv" "\<not> env_pubsubOk noPubSubEnv" "env_now upEnv = 200000"
    by (simp_all add: blogOld_def blogNew_def blogNewer_def upEnv_def noPubSubEnv_def)
  have r1: "fst (createMarker upEnv blogOld exampleWorld) =
      Inr \<lparr>markerVersion = 4, blogId = ''b1'',
           marker_blog = Some (blogOld\<lparr>blog_author := Some bob\<rparr>), marker_createdAt = 200000\<rparr>"
    using createMarker_publishes [of exampleWorld blogOld blogOld bob upEnv] exampleWorld_ok
    by (simp add: ex ids)
  have r2: "fst (createMarker noPubSubEnv blogNew ?w1) = Inl PubSubError"
    using createMarker_publishes [of ?w1 blogNew blogNew bob noPubSubEnv] l(1)
    by (simp add: f ex ids)
  have r3: "fst (createMarker upEnv blogNewer ?w2) =
      Inr \<lparr>markerVersion = 6, blogId = ''b3'',
           marker_blog = Some (blogNewer\<lparr>blog_author := Some bob\<rparr>), marker_createdAt = 200000\<rparr>"
    using createMarker_publishes [of ?w2 blogNewer blogNewer bob upEnv] l(2)
    by (simp add: f ex ids)
  have rs: "returnedVersions (fst (createMarkers exampleCalls exampleWorld)) = [4, 6]"
    by (simp add: exampleCalls_def createMarkers_Cons r1 r2 r3 del: createMarkers.simps(2))
  from createMarker_versions_strictly_increase [OF exampleWorld_ok, of exampleCalls]
  have "map markerVersion (markers (snd (createMarkers exampleCalls exampleWorld))) =
          map markerVersion (markers exampleWorld)
            @ [markerSeq exampleWorld .. markerSeq exampleWorld + int (length exampleCalls) - 1]"
    by simp
  then have ms: "map markerVersion (markers (snd (createMarkers exampleCalls exampleWorld))) =
      [1, 2, 3, 4, 5, 6]"
    by (simp add: exampleCalls_def exampleWorld_def markerOld_def markerNew_def markerNewer_def
          upto_rec1)
  from exampleWorld_ok rs ms show ?thesis by blast
qed

section \<open>The worker loop\<close>

lemma dequeue_frame:
  "isProcessing (snd (dequeueBlogCreatedEvent e w)) = isProcessing w"
  "markers (snd (dequeueBlogCreatedEvent e w)) = markers w"
  "markerSeq (snd (dequeueBlogCreatedEvent e w)) = markerSeq w"
  "blogs (snd (dequeueBlogCreatedEvent e w)) = blogs w"
  "users (snd (dequeueBlogCreatedEvent e w)) = users w"
  by (simp_all add: dequeueBlogCreatedEvent_def)

lemma processBlogCreatedEvent_isProcessing:
  "isProcessing (snd (processBlogCreatedEvent e ev w)) = isProcessing w"
proof (cases "BlogService_findOne (ev_blogId ev) w")
  case (Inl err)
  then show ?thesis by (simp add: processBlogCreatedEvent_def)
next
  case (Inr b)
  have "snd (processBlogCreatedEvent e ev w) = snd (createMarker e b w)
      \<or> (\<exists>l. snd (processBlogCreatedEvent e ev w) = (snd (createMarker e b w))\<lparr>errorLog := l\<rparr>)"
    using Inr by (auto simp add: processBlogCreatedEvent_def split: prod.splits sum.splits)
  then show ?thesis
    by (auto simp add: createMarker_store)
qed

lemma processQueue_keeps_running:
  assumes "isProcessing w"
  shows "isProcessing (processQueue e w) \<and> processingInterval (processQueue e w)"
proof -
  obtain ev w1 where d: "dequeueBlogCreatedEvent e w = (ev, w1)"
    by (cases "dequeueBlogCreatedEvent e w")
  with assms have p1: "isProcessing w1"
    using dequeue_frame(1) [of e w] by simp
  show ?thesis
  proof (cases ev)
    case None
    with assms d p1 show ?thesis by (simp add: processQueue_def)
  next
    case (Some x)
    obtain r w2 where pe: "processBlogCreatedEvent e x w1 = (r, w2)"
      by (cases "processBlogCreatedEvent e x w1")
    with p1 have "isProcessing w2"
      using processBlogCreatedEvent_isProcessing [of e x w1] by simp
    with assms d Some pe show ?thesis
      by (cases r) (simp_all add: processQueue_def)
  qed
qed

lemma runWorker_keeps_running:
  "isProcessing w \<Longrightarrow> processingInterval w \<Longrightarrow>
     isProcessing (runWorker es w) \<and> processingInterval (runWorker es w)"
proof (induction es arbitrary: w)
  case Nil
  then show ?case by simp
next
  case (Cons e es)
  from Cons.prems(1) have "isProcessing (w\<lparr>processingInterval := False\<rparr>)" by simp
  from processQueue_keeps_running [OF this, of e] Cons.IH Cons.prems(2)
  show ?case by simp
qed

lemma runWorker_append:
  "isProcessing w \<Longrightarrow> processingInterval w \<Longrightarrow>
     runWorker (es1 @ es2) w = runWorker es2 (runWorker es1 w)"
proof (induction es1 arbitrary: w)
  case Nil
  then show ?case by simp
next
  case (Cons e es)
  from Cons.prems(1) have "isProcessing (w\<lparr>processingInterval := False\<rparr>)" by simp
  from processQueue_keeps_running [OF this, of e] Cons.IH Cons.prems(2)
  show ?case by simp
qed

text \<open>
  C7. When the worker is running and dequeues an event whose blog is not found,
  \<open>processQueue\<close> changes nothing but the queue (the event is gone), the error log (two
  lines, from \<open>processBlogCreatedEvent\<close> and from \<open>processQueue\<close>) and the timer: no marker
  is created, the counter is untouched, and the next cycle is scheduled. Whatever an event
  makes the processing throw, a running worker is still running with its next cycle
  scheduled after \<open>processQueue\<close>, so a run of cycles never stops early: the cycles after
  any prefix take place, on the state the prefix left.
\<close>

theorem worker_survives_failed_event:
  "(isProcessing w \<and> env_redisUp e \<and> queue w = q @ [ev] \<and> blogs w (ev_blogId ev) = None \<longrightarrow>
      processQueue e w =
        w\<lparr>queue := q,
          errorLog := errorLog w @ [''Error processing blog created event '' @ ev_blogId ev @ '':'',
                                    ''Error processing queue:''],
          processingInterval := True\<rparr>
      \<and> markers (processQueue e w) = markers w
      \<and> markerSeq (processQueue e w) = markerSeq w)
   \<and> (isProcessing w \<longrightarrow> isProcessing (processQueue e w) \<and> processingInterval (processQueue e w))
   \<and> (isProcessing w \<and> processingInterval w \<longrightarrow>
        runWorker (es1 @ es2) w = runWorker es2 (runWorker es1 w)
        \<and> isProcessing (runWorker es1 w) \<and> processingInterval (runWorker es1 w))"
proof -
  have 1: "isProcessing w \<and> env_redisUp e \<and> queue w = q @ [ev] \<and> blogs w (ev_blogId ev) = None \<longrightarrow>
      processQueue e w =
        w\<lparr>queue := q,
          errorLog := errorLog w @ [''Error processing blog created event '' @ ev_blogId ev @ '':'',
                                    ''Error processing queue:''],
          processingInterval := True\<rparr>
      \<and> markers (processQueue e w) = markers w
      \<and> markerSeq (processQueue e w) = markerSeq w"
    by (simp add: processQueue_def dequeueBlogCreatedEvent_def processBlogCreatedEvent_def
          BlogService_findOne_def loadBlog_def Let_def)
  have 2: "isProcessing w \<longrightarrow> isProcessing (processQueue e w) \<and> processingInterval (processQueue e w)"
    using processQueue_keeps_running by blast
  have 3: "isProcessing w \<and> processingInterval w \<longrightarrow>
        runWorker (es1 @ es2) w = runWorker es2 (runWorker es1 w)
        \<and> isProcessing (runWorker es1 w) \<and> processingInterval (runWorker es1 w)"
    using runWorker_append runWorker_keeps_running by blast
  from 1 2 3 show ?thesis by blast
qed


lemma processQueue_creates_marker:
  assumes "isProcessing w" and "env_redisUp e" and "queue w = q @ [ev]"
    and "blogs w (ev_blogId ev) = Some bl"
  shows "map markerVersion (markers (processQueue e w)) =
           map markerVersion (markers w) @ [markerSeq w]"
proof -
  let ?w1 = "w\<lparr>queue := q\<rparr>"
  let ?b = "bl\<lparr>blog_author := users w (blog_authorId bl)\<rparr>"
  have d: "dequeueBlogCreatedEvent e w = (Some ev, ?w1)"
    using assms(2,3) by (simp add: dequeueBlogCreatedEvent_def)
  have f: "BlogService_findOne (ev_blogId ev) ?w1 = Inr ?b"
    using assms(4) by (simp add: BlogService_findOne_def loadBlog_def)
  obtain r w2 where c: "createMarker e ?b ?w1 = (r, w2)"
    by (cases "createMarker e ?b ?w1")
  then have m: "map markerVersion (markers w2) = map markerVersion (markers w) @ [markerSeq w]"
    using createMarker_store(1) [of e ?b ?w1] by simp
  have "markers (processQueue e w) = markers w2"
    using assms(1) d f c
    by (cases r) (simp_all add: processQueue_def processBlogCreatedEvent_def Let_def)
  with m show ?thesis by simp
qed

theorem worker_survives_failed_event_witness:
  "isProcessing queuedWorld \<and> env_redisUp upEnv
   \<and> queue queuedWorld = [newerEvent] @ [ghostEvent]
   \<and> blogs queuedWorld (ev_blogId ghostEvent) = None
   \<and> markers (processQueue upEnv queuedWorld) = markers queuedWorld
   \<and> markerSeq (processQueue upEnv queuedWorld) = 4
   \<and> queue (processQueue upEnv queuedWorld) = [newerEvent]
   \<and> map markerVersion (markers (runWorker [upEnv, upEnv] queuedWorld)) = [1, 2, 3, 4]
   \<and> processingInterval (runWorker [upEnv, upEnv] queuedWorld)"
proof -
  let ?w0 = "queuedWorld\<lparr>processingInterval := False\<rparr>"
  have h: "isProcessing queuedWorld" "env_redisUp upEnv"
      "queue queuedWorld = [newerEvent] @ [ghostEvent]"
      "blogs queuedWorld (ev_blogId ghostEvent) = None"
      "processingInterval queuedWorld" "markerSeq queuedWorld = 4"
      "map markerVersion (markers queuedWorld) = [1, 2, 3]"
      "blogs queuedWorld (ev_blogId newerEvent) = Some blogNewer"
    by (simp_all add: queuedWorld_def exampleWorld_def upEnv_def ghostEvent_def newerEvent_def
          markerOld_def markerNew_def markerNewer_def)
  from worker_survives_failed_event [of queuedWorld upEnv "[newerEvent]" ghostEvent] h(1-4)
  have a: "processQueue upEnv queuedWorld =
        queuedWorld\<lparr>queue := [newerEvent],
          errorLog := errorLog queuedWorld @
             [''Error processing blog created event '' @ ev_blogId ghostEvent @ '':'',
              ''Error processing queue:''],
          processingInterval := True\<rparr>"
    by blast
  from worker_survives_failed_event [of ?w0 upEnv "[newerEvent]" ghostEvent] h(1-4)
  have b: "processQueue upEnv ?w0 =
        ?w0\<lparr>queue := [newerEvent],
          errorLog := errorLog ?w0 @
             [''Error processing blog created event '' @ ev_blogId ghostEvent @ '':'',
              ''Error processing queue:''],
          processingInterval := True\<rparr>"
    by simp
  let ?w1 = "(processQueue upEnv ?w0)\<lparr>processingInterval := False\<rparr>"
  have w1: "isProcessing ?w1" "queue ?w1 = [] @ [newerEvent]"
      "blogs ?w1 (ev_blogId newerEvent) = Some blogNewer"
      "map markerVersion (markers ?w1) = [1, 2, 3]" "markerSeq ?w1 = 4"
    unfolding b using h by simp_all
  have run: "runWorker [upEnv, upEnv] queuedWorld = processQueue upEnv ?w1"
    using h(5) by (simp add: b)
  have c: "map markerVersion (markers (runWorker [upEnv, upEnv] queuedWorld)) = [1, 2, 3, 4]"
    unfolding run
    using processQueue_creates_marker [OF w1(1) h(2) w1(2) w1(3)] w1(4,5) by simp
  from worker_survives_failed_event [of queuedWorld upEnv _ _ "[upEnv, upEnv]" "[]"] h(1,5)
  have d: "processingInterval (runWorker [upEnv, upEnv] queuedWorld)"
    by blast
  from a h c d show ?thesis by simp
qed

end
